theory Spec2Isabelle
  imports Complex_Main "HOL-Library.Word"
begin

section \<open>Forge Engine: the raymarching shader and its host-side renderer\<close>

text \<open>
  The development embeds three parts of the engine:
  \<^item> the GLSL fragment shader \<^verbatim>\<open>shaders/raymarch.frag\<close> (SDF primitives and operators,
    the sphere-tracing loop and the soft-shadow loop);
  \<^item> the camera code of \<^verbatim>\<open>main.c\<close> and \<^verbatim>\<open>gl_renderer.c\<close>;
  \<^item> the two renderers: the single-program one of \<^verbatim>\<open>gl_renderer.c\<close> (Direct) and the
    compute-plus-display one (Compute+blit), as state transformers over an explicit
    table of the OpenGL objects and host allocations that are outstanding.

  A \<^verbatim>\<open>float\<close> is modelled as a \<^typ>\<open>real\<close>: arithmetic is exact, there is no rounding,
  no infinity and no NaN. A C \<^verbatim>\<open>int\<close> is modelled as an \<^typ>\<open>int\<close>; none of the properties
  below depends on overflow.
\<close>

subsection \<open>GLSL vectors and built-in functions\<close>

datatype vec3 = Vec3 (vx: real) (vy: real) (vz: real)

definition vadd :: "vec3 \<Rightarrow> vec3 \<Rightarrow> vec3" where
  "vadd a b = Vec3 (vx a + vx b) (vy a + vy b) (vz a + vz b)"

definition vsub :: "vec3 \<Rightarrow> vec3 \<Rightarrow> vec3" where
  "vsub a b = Vec3 (vx a - vx b) (vy a - vy b) (vz a - vz b)"

definition smul :: "real \<Rightarrow> vec3 \<Rightarrow> vec3" where
  "smul s a = Vec3 (s * vx a) (s * vy a) (s * vz a)"

definition dot :: "vec3 \<Rightarrow> vec3 \<Rightarrow> real" where
  "dot a b = vx a * vx b + vy a * vy b + vz a * vz b"

definition length_v :: "vec3 \<Rightarrow> real" where
  "length_v a = sqrt (vx a * vx a + vy a * vy a + vz a * vz a)"

definition normalize :: "vec3 \<Rightarrow> vec3" where
  "normalize a = Vec3 (vx a / length_v a) (vy a / length_v a) (vz a / length_v a)"

definition abs_v :: "vec3 \<Rightarrow> vec3" where
  "abs_v a = Vec3 (abs (vx a)) (abs (vy a)) (abs (vz a))"

definition max_vs :: "vec3 \<Rightarrow> real \<Rightarrow> vec3" where
  "max_vs a s = Vec3 (max (vx a) s) (max (vy a) s) (max (vz a) s)"

definition clamp :: "real \<Rightarrow> real \<Rightarrow> real \<Rightarrow> real" where
  "clamp v lo hi = min (max v lo) hi"

definition mix :: "vec3 \<Rightarrow> vec3 \<Rightarrow> real \<Rightarrow> vec3" where
  "mix a b t = vadd (smul (1 - t) a) (smul t b)"

subsection \<open>SDF primitives and operators (\<^verbatim>\<open>raymarch.frag\<close>)\<close>

record SDFHit =
  d :: real
  color :: vec3

definition sdf_sphere :: "vec3 \<Rightarrow> real \<Rightarrow> real" where
  "sdf_sphere p radius = length_v p - radius"

definition sdf_box :: "vec3 \<Rightarrow> vec3 \<Rightarrow> real" where
  "sdf_box p b =
     (let q = vsub (abs_v p) b
      in length_v (max_vs q 0) + min (max (vx q) (max (vy q) (vz q))) 0)"

definition sdf_sphere_color :: "vec3 \<Rightarrow> real \<Rightarrow> vec3 \<Rightarrow> SDFHit" where
  "sdf_sphere_color p radius c = \<lparr>d = sdf_sphere p radius, color = c\<rparr>"

definition sdf_box_color :: "vec3 \<Rightarrow> vec3 \<Rightarrow> vec3 \<Rightarrow> SDFHit" where
  "sdf_box_color p b c = \<lparr>d = sdf_box p b, color = c\<rparr>"

text \<open>
  GLSL overloads the operators on \<^verbatim>\<open>float\<close> and on \<^verbatim>\<open>SDFHit\<close>. The \<^verbatim>\<open>float\<close> overloads
  carry the suffix \<open>_f\<close> here; the \<^verbatim>\<open>SDFHit\<close> overloads keep the plain name.
\<close>

definition opUnion_f :: "real \<Rightarrow> real \<Rightarrow> real" where
  "opUnion_f a b = min a b"

definition opSubtraction_f :: "real \<Rightarrow> real \<Rightarrow> real" where
  "opSubtraction_f a b = max (- a) b"

definition opIntersection_f :: "real \<Rightarrow> real \<Rightarrow> real" where
  "opIntersection_f a b = max a b"

definition opXor_f :: "real \<Rightarrow> real \<Rightarrow> real" where
  "opXor_f a b = max (min a b) (- max a b)"

definition opUnion :: "SDFHit \<Rightarrow> SDFHit \<Rightarrow> SDFHit" where
  "opUnion a b = (if d a < d b then a else b)"

definition opSubtraction :: "SDFHit \<Rightarrow> SDFHit \<Rightarrow> SDFHit" where
  "opSubtraction a b = \<lparr>d = max (d a) (- d b), color = color a\<rparr>"

definition opIntersection :: "SDFHit \<Rightarrow> SDFHit \<Rightarrow> SDFHit" where
  "opIntersection a b = \<lparr>d = max (d a) (d b), color = color b\<rparr>"

definition opSmoothUnion_f :: "real \<Rightarrow> real \<Rightarrow> real \<Rightarrow> real" where
  "opSmoothUnion_f a b k =
     (let k4 = k * 4;
          h = max (k4 - \<bar>a - b\<bar>) 0
      in min a b - h * h * 0.25 / k4)"

definition opSmoothSubtraction_f :: "real \<Rightarrow> real \<Rightarrow> real \<Rightarrow> real" where
  "opSmoothSubtraction_f a b k = - opSmoothUnion_f a (- b) k"

definition opSmoothIntersection_f :: "real \<Rightarrow> real \<Rightarrow> real \<Rightarrow> real" where
  "opSmoothIntersection_f a b k = - opSmoothUnion_f (- a) (- b) k"

definition opSmoothUnion :: "SDFHit \<Rightarrow> SDFHit \<Rightarrow> real \<Rightarrow> SDFHit" where
  "opSmoothUnion a b k =
     (let k4 = k * 4;
          h = max (k4 - \<bar>d a - d b\<bar>) 0;
          dd = min (d a) (d b) - h * h * 0.25 / k4;
          t = clamp (0.5 + 0.5 * (d b - d a) / k4) 0 1;
          col = mix (color a) (color b) t
      in \<lparr>d = dd, color = col\<rparr>)"

definition opSmoothSubtraction :: "SDFHit \<Rightarrow> SDFHit \<Rightarrow> real \<Rightarrow> SDFHit" where
  "opSmoothSubtraction a b k =
     (let neg_a = \<lparr>d = - d a, color = color a\<rparr>;
          u = opSmoothUnion neg_a b k
      in \<lparr>d = - d u, color = color a\<rparr>)"

definition opSmoothIntersection :: "SDFHit \<Rightarrow> SDFHit \<Rightarrow> real \<Rightarrow> SDFHit" where
  "opSmoothIntersection a b k =
     (let neg_a = \<lparr>d = - d a, color = color a\<rparr>;
          neg_b = \<lparr>d = - d b, color = color b\<rparr>;
          u = opSmoothUnion neg_a neg_b k
      in \<lparr>d = - d u, color = color u\<rparr>)"

text \<open>The scene of the shader; the uniform \<^verbatim>\<open>u_time\<close> is a parameter.\<close>

definition scene_sdf :: "real \<Rightarrow> vec3 \<Rightarrow> SDFHit" where
  "scene_sdf u_time pos =
     (let sphere_centre = Vec3 0 (sin u_time) (- 3);
          box_centre = Vec3 (cos u_time - 2) 0 (- 3);
          box_dims = Vec3 1 0.5 0.5;
          plane = sdf_box_color (vsub pos (Vec3 0 (- 2) 0)) (Vec3 100 0.5 100) (Vec3 0.35 0.35 0.4);
          sphere = sdf_sphere_color (vsub pos sphere_centre) 1 (Vec3 1 0.25 0.25);
          box = sdf_box_color (vsub pos box_centre) box_dims (Vec3 0.25 0.55 1);
          res = opSmoothSubtraction sphere box 0.05;
          res = opUnion res box;
          res = opUnion res plane
      in res)"

subsection \<open>Raymarching and shadow rays (\<^verbatim>\<open>raymarch.frag\<close>)\<close>

text \<open>
  \<^verbatim>\<open>raymarch\<close> and \<^verbatim>\<open>shadow_ray\<close> call the global \<^verbatim>\<open>scene_sdf\<close>; here the scene function
  is a parameter, and the shader's instance is \<open>scene_sdf u_time\<close>. Each \<^verbatim>\<open>for\<close> loop is a
  recursive function of the loop variables (\<open>cur_dist\<close> is the source's \<^verbatim>\<open>dist\<close>). Beside
  its result a loop returns the marching distances at which its body evaluated the scene,
  in order: one entry per scene evaluation of the loop.
\<close>

definition calc_normal :: "(vec3 \<Rightarrow> SDFHit) \<Rightarrow> vec3 \<Rightarrow> vec3" where
  "calc_normal scene p =
     (let eps = 0.0001;
          nx = d (scene (vadd p (Vec3 eps 0 0))) - d (scene (vsub p (Vec3 eps 0 0)));
          ny = d (scene (vadd p (Vec3 0 eps 0))) - d (scene (vsub p (Vec3 0 eps 0)));
          nz = d (scene (vadd p (Vec3 0 0 eps))) - d (scene (vsub p (Vec3 0 0 eps)))
      in normalize (Vec3 nx ny nz))"

record march_result =
  hit :: bool
  hit_pos :: vec3
  hit_normal :: vec3
  hit_color :: vec3

definition no_hit :: march_result where
  "no_hit = \<lparr>hit = False, hit_pos = Vec3 0 0 0, hit_normal = Vec3 0 1 0, hit_color = Vec3 1 1 1\<rparr>"

function raymarch_loop ::
  "(vec3 \<Rightarrow> SDFHit) \<Rightarrow> vec3 \<Rightarrow> vec3 \<Rightarrow> nat \<Rightarrow> real \<Rightarrow> march_result \<times> real list" where
  "raymarch_loop scene origin dir step cur_dist =
     (if step < 128 then
        (let p = vadd origin (smul cur_dist dir);
             h = scene p
         in if d h < 0.001
            then (\<lparr>hit = True, hit_pos = p, hit_normal = calc_normal scene p,
                   hit_color = color h\<rparr>, [cur_dist])
            else if cur_dist + d h > 100
            then (no_hit, [cur_dist])
            else (case raymarch_loop scene origin dir (step + 1) (cur_dist + d h) of
                    (res, samples) \<Rightarrow> (res, cur_dist # samples)))
      else (no_hit, []))"
  by pat_completeness auto
termination
  by (relation "measure (\<lambda>(scene, origin, dir, step, cur_dist). 128 - step)") auto

definition raymarch :: "(vec3 \<Rightarrow> SDFHit) \<Rightarrow> vec3 \<Rightarrow> vec3 \<Rightarrow> march_result" where
  "raymarch scene origin dir = fst (raymarch_loop scene origin dir 0 0)"

definition raymarch_samples :: "(vec3 \<Rightarrow> SDFHit) \<Rightarrow> vec3 \<Rightarrow> vec3 \<Rightarrow> real list" where
  "raymarch_samples scene origin dir = snd (raymarch_loop scene origin dir 0 0)"

function shadow_loop ::
  "(vec3 \<Rightarrow> SDFHit) \<Rightarrow> vec3 \<Rightarrow> vec3 \<Rightarrow> real \<Rightarrow> nat \<Rightarrow> real \<Rightarrow> real \<Rightarrow> real \<times> real list" where
  "shadow_loop scene origin dir max_dist step cur_dist soft =
     (if step < 64 then
        (if cur_dist \<ge> max_dist then (soft, [])
         else (let p = vadd origin (smul cur_dist dir);
                   dd = d (scene p)
               in if dd < 0.001 then (0, [cur_dist])
                  else (case shadow_loop scene origin dir max_dist (step + 1) (cur_dist + dd)
                               (min soft (32 * dd / max cur_dist 0.001)) of
                          (res, samples) \<Rightarrow> (res, cur_dist # samples))))
      else (soft, []))"
  by pat_completeness auto
termination
  by (relation "measure (\<lambda>(scene, origin, dir, max_dist, step, cur_dist, soft). 64 - step)") auto

definition shadow_ray :: "(vec3 \<Rightarrow> SDFHit) \<Rightarrow> vec3 \<Rightarrow> vec3 \<Rightarrow> real \<Rightarrow> real" where
  "shadow_ray scene origin dir max_dist = fst (shadow_loop scene origin dir max_dist 0 0 1)"

definition shadow_samples :: "(vec3 \<Rightarrow> SDFHit) \<Rightarrow> vec3 \<Rightarrow> vec3 \<Rightarrow> real \<Rightarrow> real list" where
  "shadow_samples scene origin dir max_dist = snd (shadow_loop scene origin dir max_dist 0 0 1)"

declare raymarch_loop.simps [simp del] shadow_loop.simps [simp del]

text \<open>
  The scene distance that a loop reads at marching distance \<open>t\<close> along the ray, that is
  \<^verbatim>\<open>scene_sdf(origin + dist * dir).d\<close>, and the penumbra term
  \<^verbatim>\<open>k * d / max(dist, 0.001)\<close> of \<^verbatim>\<open>shadow_ray\<close> at that distance, with \<open>k = 32\<close>.
\<close>

definition ray_distance :: "(vec3 \<Rightarrow> SDFHit) \<Rightarrow> vec3 \<Rightarrow> vec3 \<Rightarrow> real \<Rightarrow> real" where
  "ray_distance scene origin dir t = d (scene (vadd origin (smul t dir)))"

definition penumbra :: "(vec3 \<Rightarrow> SDFHit) \<Rightarrow> vec3 \<Rightarrow> vec3 \<Rightarrow> real \<Rightarrow> real" where
  "penumbra scene origin dir t = 32 * ray_distance scene origin dir t / max t 0.001"

subsection \<open>The camera (\<^verbatim>\<open>gl_renderer.h\<close>, \<^verbatim>\<open>main.c\<close>, \<^verbatim>\<open>gl_renderer.c\<close>)\<close>

record camera_t =
  pos :: vec3
  yaw :: real
  pitch :: real

definition CAMERA_SPEED :: real where
  "CAMERA_SPEED = 4"

definition MOUSE_SENSITIVITY :: real where
  "MOUSE_SENSITIVITY = 0.002"

text \<open>
  The keyboard state is SDL's array of \<^verbatim>\<open>Uint8\<close>, indexed by scancode; only the six
  scancodes that \<^verbatim>\<open>camera_update\<close> reads are named.
\<close>

datatype SDL_Scancode =
    SDL_SCANCODE_W | SDL_SCANCODE_S | SDL_SCANCODE_D | SDL_SCANCODE_A
  | SDL_SCANCODE_SPACE | SDL_SCANCODE_LSHIFT

definition camera_update ::
  "camera_t \<Rightarrow> real \<Rightarrow> (SDL_Scancode \<Rightarrow> 8 word) \<Rightarrow> int \<Rightarrow> int \<Rightarrow> camera_t" where
  "camera_update cam dt keys mouse_dx mouse_dy =
     (let yaw1 = yaw cam + real_of_int mouse_dx * MOUSE_SENSITIVITY;
          pitch1 = pitch cam - real_of_int mouse_dy * MOUSE_SENSITIVITY;
          pitch2 = (if pitch1 > 1.57 then 1.57 else pitch1);
          pitch3 = (if pitch2 < - 1.57 then - 1.57 else pitch2);
          cy = cos yaw1; sy = sin yaw1;
          cp = cos pitch3; sp = sin pitch3;
          fwd = Vec3 (cp * sy) sp (- cp * cy);
          right = Vec3 cy 0 sy;
          move = Vec3 0 0 0;
          move = (if keys SDL_SCANCODE_W \<noteq> 0
                  then Vec3 (vx move + vx fwd) (vy move + vy fwd) (vz move + vz fwd) else move);
          move = (if keys SDL_SCANCODE_S \<noteq> 0
                  then Vec3 (vx move - vx fwd) (vy move - vy fwd) (vz move - vz fwd) else move);
          move = (if keys SDL_SCANCODE_D \<noteq> 0
                  then Vec3 (vx move + vx right) (vy move) (vz move + vz right) else move);
          move = (if keys SDL_SCANCODE_A \<noteq> 0
                  then Vec3 (vx move - vx right) (vy move) (vz move - vz right) else move);
          move = (if keys SDL_SCANCODE_SPACE \<noteq> 0
                  then Vec3 (vx move) (vy move + 1) (vz move) else move);
          move = (if keys SDL_SCANCODE_LSHIFT \<noteq> 0
                  then Vec3 (vx move) (vy move - 1) (vz move) else move);
          len = sqrt (vx move * vx move + vy move * vy move + vz move * vz move);
          pos1 = (if len > 0.0001
                  then (let len = CAMERA_SPEED * dt / len
                        in Vec3 (vx (pos cam) + vx move * len)
                                (vy (pos cam) + vy move * len)
                                (vz (pos cam) + vz move * len))
                  else pos cam)
      in \<lparr>pos = pos1, yaw = yaw1, pitch = pitch3\<rparr>)"

text \<open>\<^verbatim>\<open>camera_basis\<close> writes three output arrays; the model returns them as a triple
  \<open>(fwd, right, up)\<close>.\<close>

definition camera_basis :: "camera_t \<Rightarrow> vec3 \<times> vec3 \<times> vec3" where
  "camera_basis cam =
     (let cy = cos (yaw cam); sy = sin (yaw cam);
          cp = cos (pitch cam); sp = sin (pitch cam);
          fwd = Vec3 (cp * sy) sp (- cp * cy);
          world_up = Vec3 0 1 0;
          right = Vec3 (vy fwd * vz world_up - vz fwd * vy world_up)
                       (vz fwd * vx world_up - vx fwd * vz world_up)
                       (vx fwd * vy world_up - vy fwd * vx world_up);
          rlen = 1 / sqrt (vx right * vx right + vy right * vy right + vz right * vz right);
          right = Vec3 (vx right * rlen) (vy right * rlen) (vz right * rlen);
          up = Vec3 (vy right * vz fwd - vz right * vy fwd)
                    (vz right * vx fwd - vx right * vz fwd)
                    (vx right * vy fwd - vy right * vx fwd)
      in (fwd, right, up))"

subsection \<open>OpenGL objects and host memory\<close>

text \<open>
  The renderers own OpenGL objects and heap blocks. The state below is the table of what is
  outstanding: an object is in its table from the call that creates it
  (\<^verbatim>\<open>glCreateShader\<close>, \<^verbatim>\<open>glCreateProgram\<close>, \<^verbatim>\<open>glGen*\<close>) until the call that deletes it
  (\<^verbatim>\<open>glDelete*\<close>), and \<open>host_blocks\<close> counts the blocks obtained from \<^verbatim>\<open>malloc\<close> or
  \<^verbatim>\<open>calloc\<close> and not yet passed to \<^verbatim>\<open>free\<close>. A shader is stored with its source text, a
  texture with the size of the storage requested for it.

  Shader and program objects share one name space, textures, vertex arrays and buffers
  have one each, as in OpenGL. OpenGL promises of a new name only that it is nonzero and
  not in use; the model hands out one more than the largest name in use. Deleting the
  name 0 or a name that is not in the table changes nothing, as in OpenGL. That OpenGL
  keeps a deleted shader alive while it is attached to a program, and a deleted program
  while it is current, is not modelled: a delete call ends the renderer's ownership.
\<close>

type_synonym GLuint = nat

datatype GLenum = GL_VERTEX_SHADER | GL_FRAGMENT_SHADER | GL_COMPUTE_SHADER

record gl_state =
  shaders :: "(GLuint \<times> string) list"
  programs :: "GLuint list"
  textures :: "(GLuint \<times> int \<times> int) list"
  vertex_arrays :: "GLuint list"
  buffers :: "GLuint list"
  host_blocks :: nat

definition fresh_name :: "GLuint list \<Rightarrow> GLuint" where
  "fresh_name used = Suc (fold max used 0)"

definition host_alloc :: "gl_state \<Rightarrow> gl_state" where
  "host_alloc g = g\<lparr>host_blocks := host_blocks g + 1\<rparr>"

definition host_free :: "gl_state \<Rightarrow> gl_state" where
  "host_free g = g\<lparr>host_blocks := host_blocks g - 1\<rparr>"

definition glCreateShader :: "gl_state \<Rightarrow> GLuint \<times> gl_state" where
  "glCreateShader g =
     (let shader = fresh_name (map fst (shaders g) @ programs g)
      in (shader, g\<lparr>shaders := (shader, []) # shaders g\<rparr>))"

definition glShaderSource :: "gl_state \<Rightarrow> GLuint \<Rightarrow> string \<Rightarrow> gl_state" where
  "glShaderSource g shader src =
     g\<lparr>shaders := map (\<lambda>(n, s). if n = shader then (n, src) else (n, s)) (shaders g)\<rparr>"

definition glDeleteShader :: "gl_state \<Rightarrow> GLuint \<Rightarrow> gl_state" where
  "glDeleteShader g shader = g\<lparr>shaders := filter (\<lambda>(n, s). n \<noteq> shader) (shaders g)\<rparr>"

definition glCreateProgram :: "gl_state \<Rightarrow> GLuint \<times> gl_state" where
  "glCreateProgram g =
     (let prog = fresh_name (map fst (shaders g) @ programs g)
      in (prog, g\<lparr>programs := prog # programs g\<rparr>))"

definition glDeleteProgram :: "gl_state \<Rightarrow> GLuint \<Rightarrow> gl_state" where
  "glDeleteProgram g prog = g\<lparr>programs := filter (\<lambda>n. n \<noteq> prog) (programs g)\<rparr>"

definition glGenTextures :: "gl_state \<Rightarrow> GLuint \<times> gl_state" where
  "glGenTextures g =
     (let tex = fresh_name (map fst (textures g))
      in (tex, g\<lparr>textures := (tex, 0, 0) # textures g\<rparr>))"

definition glTexStorage2D :: "gl_state \<Rightarrow> GLuint \<Rightarrow> int \<Rightarrow> int \<Rightarrow> gl_state" where
  "glTexStorage2D g tex w h =
     g\<lparr>textures := map (\<lambda>(n, s). if n = tex then (n, w, h) else (n, s)) (textures g)\<rparr>"

definition glDeleteTextures :: "gl_state \<Rightarrow> GLuint \<Rightarrow> gl_state" where
  "glDeleteTextures g tex = g\<lparr>textures := filter (\<lambda>(n, s). n \<noteq> tex) (textures g)\<rparr>"

definition glGenVertexArrays :: "gl_state \<Rightarrow> GLuint \<times> gl_state" where
  "glGenVertexArrays g =
     (let va = fresh_name (vertex_arrays g)
      in (va, g\<lparr>vertex_arrays := va # vertex_arrays g\<rparr>))"

definition glDeleteVertexArrays :: "gl_state \<Rightarrow> GLuint \<Rightarrow> gl_state" where
  "glDeleteVertexArrays g va = g\<lparr>vertex_arrays := filter (\<lambda>n. n \<noteq> va) (vertex_arrays g)\<rparr>"

definition glGenBuffers :: "gl_state \<Rightarrow> GLuint \<times> gl_state" where
  "glGenBuffers g =
     (let vb = fresh_name (buffers g)
      in (vb, g\<lparr>buffers := vb # buffers g\<rparr>))"

definition glDeleteBuffers :: "gl_state \<Rightarrow> GLuint \<Rightarrow> gl_state" where
  "glDeleteBuffers g vb = g\<lparr>buffers := filter (\<lambda>n. n \<noteq> vb) (buffers g)\<rparr>"

definition shader_source :: "gl_state \<Rightarrow> GLuint \<Rightarrow> string" where
  "shader_source g shader = (case map_of (shaders g) shader of Some src \<Rightarrow> src | None \<Rightarrow> [])"

text \<open>
  What the renderer cannot decide: the text of each shader file as \<^verbatim>\<open>SDL_RWread\<close>
  delivers it (\<open>None\<close> when \<^verbatim>\<open>SDL_RWFromFile\<close> fails or the size is unknown), whether
  \<^verbatim>\<open>malloc\<close> serves the buffer for a file and \<^verbatim>\<open>calloc\<close> the renderer struct, and the
  verdicts of the GLSL compiler (per stage and source text) and of the linker (per list
  of the sources of the attached shaders).
\<close>

record shader_env =
  files :: "string \<Rightarrow> string option"
  malloc_ok :: "string \<Rightarrow> bool"
  calloc_ok :: bool
  compile_status :: "GLenum \<Rightarrow> string \<Rightarrow> bool"
  link_status :: "string list \<Rightarrow> bool"

subsection \<open>Loading, compiling and linking (both renderers)\<close>

definition load_file :: "shader_env \<Rightarrow> gl_state \<Rightarrow> string \<Rightarrow> string option \<times> gl_state" where
  "load_file env g path =
     (case files env path of
        None \<Rightarrow> (None, g)
      | Some content \<Rightarrow>
          if int (length content) \<le> 0 then (None, g)
          else if \<not> malloc_ok env path then (None, g)
          else (Some content, host_alloc g))"

definition compile_shader ::
  "shader_env \<Rightarrow> gl_state \<Rightarrow> GLenum \<Rightarrow> string \<Rightarrow> GLuint \<times> gl_state" where
  "compile_shader env g type path =
     (case load_file env g path of
        (None, g) \<Rightarrow> (0, g)
      | (Some src, g) \<Rightarrow>
          (let (shader, g) = glCreateShader g;
               g = glShaderSource g shader src;
               g = host_free g
           in if \<not> compile_status env type src
              then (0, glDeleteShader g shader)
              else (shader, g)))"

definition link_program ::
  "shader_env \<Rightarrow> gl_state \<Rightarrow> GLuint \<Rightarrow> GLuint \<Rightarrow> GLuint \<times> gl_state" where
  "link_program env g vert frag =
     (let (prog, g) = glCreateProgram g;
          success = link_status env [shader_source g vert, shader_source g frag];
          g = glDeleteShader g vert;
          g = glDeleteShader g frag
      in if \<not> success
         then (0, glDeleteProgram g prog)
         else (prog, g))"

definition link_compute_program :: "shader_env \<Rightarrow> gl_state \<Rightarrow> GLuint \<Rightarrow> GLuint \<times> gl_state" where
  "link_compute_program env g comp_shader =
     (let (prog, g) = glCreateProgram g;
          success = link_status env [shader_source g comp_shader];
          g = glDeleteShader g comp_shader
      in if \<not> success
         then (0, glDeleteProgram g prog)
         else (prog, g))"

subsection \<open>Draw calls\<close>

text \<open>
  A draw issues OpenGL commands and changes no object table; the model returns the
  commands in order. A uniform is addressed by program and name, which stands for the
  location that \<^verbatim>\<open>glGetUniformLocation\<close> returns; arguments that are the same constant in
  every call of the source (targets, formats, the primitive mode) are left out.
\<close>

datatype gl_cmd =
    glClearColor real real real real
  | glClear
  | glUseProgram GLuint
  | glUniform2f GLuint string real real
  | glUniform1f GLuint string real
  | glUniform1i GLuint string int
  | glUniform3fv GLuint string vec3
  | glBindImageTexture nat GLuint
  | glDispatchCompute int int int
  | glMemoryBarrier
  | glActiveTexture nat
  | glBindTexture GLuint
  | glViewport int int int int
  | glBindVertexArray GLuint
  | glDrawArrays int int

text \<open>Integer division of C, which truncates towards zero.\<close>

definition c_div :: "int \<Rightarrow> int \<Rightarrow> int" where
  "c_div a b = sgn a * sgn b * (\<bar>a\<bar> div \<bar>b\<bar>)"

subsection \<open>The Direct renderer (\<^verbatim>\<open>gl_renderer.c\<close>)\<close>

text \<open>
  A \<^verbatim>\<open>gl_renderer *\<close> is an optional record: \<open>None\<close> is the null pointer. A function that
  writes through the pointer returns the record it leaves behind.
\<close>

record gl_renderer =
  width :: int
  height :: int
  program :: GLuint
  vao :: GLuint
  vbo :: GLuint
  ok :: bool

definition gl_renderer_create ::
  "shader_env \<Rightarrow> gl_state \<Rightarrow> int \<Rightarrow> int \<Rightarrow> gl_renderer option \<times> gl_state" where
  "gl_renderer_create env g w h =
     (if \<not> calloc_ok env then (None, g)
      else
        (let g = host_alloc g;
             r = \<lparr>width = 0, height = 0, program = 0, vao = 0, vbo = 0, ok = False\<rparr>;
             r = r\<lparr>width := w\<rparr>;
             r = r\<lparr>height := h\<rparr>;
             (vert, g) = compile_shader env g GL_VERTEX_SHADER ''shaders/raymarch.vert'';
             (frag, g) = compile_shader env g GL_FRAGMENT_SHADER ''shaders/raymarch.frag''
         in if vert = 0 \<or> frag = 0 then (None, host_free g)
            else
              (let (prog, g) = link_program env g vert frag;
                   r = r\<lparr>program := prog\<rparr>
               in if program r = 0 then (None, host_free g)
                  else
                    (let (va, g) = glGenVertexArrays g;
                         r = r\<lparr>vao := va\<rparr>;
                         (vb, g) = glGenBuffers g;
                         r = r\<lparr>vbo := vb\<rparr>;
                         r = r\<lparr>ok := True\<rparr>
                     in (Some r, g)))))"

definition gl_renderer_destroy :: "gl_state \<Rightarrow> gl_renderer option \<Rightarrow> gl_state" where
  "gl_renderer_destroy g ro =
     (case ro of
        None \<Rightarrow> g
      | Some r \<Rightarrow>
          (let g = (if vao r \<noteq> 0 then glDeleteVertexArrays g (vao r) else g);
               g = (if vbo r \<noteq> 0 then glDeleteBuffers g (vbo r) else g);
               g = (if program r \<noteq> 0 then glDeleteProgram g (program r) else g)
           in host_free g))"

definition gl_renderer_draw :: "gl_renderer option \<Rightarrow> real \<Rightarrow> camera_t option \<Rightarrow> gl_cmd list" where
  "gl_renderer_draw ro time_s camo =
     (case ro of
        None \<Rightarrow> []
      | Some r \<Rightarrow>
          if \<not> ok r then []
          else
            [glClearColor 0.1 0.1 0.15 1, glClear,
             glUseProgram (program r),
             glUniform2f (program r) ''u_resolution'' (real_of_int (width r)) (real_of_int (height r)),
             glUniform1f (program r) ''u_time'' time_s]
            @ (case camo of
                 None \<Rightarrow> []
               | Some cam \<Rightarrow>
                   (let (fwd, right, up) = camera_basis cam
                    in [glUniform3fv (program r) ''u_camera_pos'' (pos cam),
                        glUniform3fv (program r) ''u_camera_forward'' fwd,
                        glUniform3fv (program r) ''u_camera_right'' right,
                        glUniform3fv (program r) ''u_camera_up'' up]))
            @ [glViewport 0 0 (width r) (height r),
               glBindVertexArray (vao r),
               glDrawArrays 0 4,
               glBindVertexArray 0])"

definition gl_renderer_resize ::
  "gl_state \<Rightarrow> gl_renderer option \<Rightarrow> int \<Rightarrow> int \<Rightarrow> gl_renderer option \<times> gl_state" where
  "gl_renderer_resize g ro w h =
     (case ro of
        None \<Rightarrow> (None, g)
      | Some r \<Rightarrow>
          (let r = r\<lparr>width := w\<rparr>;
               r = r\<lparr>height := h\<rparr>
           in (Some r, g)))"

definition gl_renderer_reload_shaders ::
  "shader_env \<Rightarrow> gl_state \<Rightarrow> gl_renderer option \<Rightarrow> bool \<times> gl_renderer option \<times> gl_state" where
  "gl_renderer_reload_shaders env g ro =
     (case ro of
        None \<Rightarrow> (False, None, g)
      | Some r \<Rightarrow>
          if \<not> ok r then (False, Some r, g)
          else
            (let (vert, g) = compile_shader env g GL_VERTEX_SHADER ''shaders/raymarch.vert'';
                 (frag, g) = compile_shader env g GL_FRAGMENT_SHADER ''shaders/raymarch.frag''
             in if vert = 0 \<or> frag = 0 then (False, Some r, g)
                else
                  (let (new_prog, g) = link_program env g vert frag
                   in if new_prog = 0 then (False, Some r, g)
                      else
                        (let g = glDeleteProgram g (program r);
                             r = r\<lparr>program := new_prog\<rparr>
                         in (True, Some r, g)))))"

definition gl_renderer_ok :: "gl_renderer option \<Rightarrow> bool" where
  "gl_renderer_ok ro = (case ro of None \<Rightarrow> False | Some r \<Rightarrow> ok r)"

subsection \<open>The Compute+blit renderer (the second \<^verbatim>\<open>gl_renderer.c\<close>)\<close>

text \<open>
  The second renderer has the same function names; its functions and the fields of its
  struct that the first one has too carry the suffix \<open>_c\<close>.
\<close>

record gl_renderer_c =
  width_c :: int
  height_c :: int
  compute_program :: GLuint
  display_program :: GLuint
  output_texture :: GLuint
  vao_c :: GLuint
  vbo_c :: GLuint
  ok_c :: bool

definition create_output_texture :: "gl_state \<Rightarrow> gl_renderer_c \<Rightarrow> gl_renderer_c \<times> gl_state" where
  "create_output_texture g r =
     (let g = (if output_texture r \<noteq> 0 then glDeleteTextures g (output_texture r) else g);
          (tex, g) = glGenTextures g;
          r = r\<lparr>output_texture := tex\<rparr>;
          g = glTexStorage2D g (output_texture r) (width_c r) (height_c r)
      in (r, g))"

definition gl_renderer_create_c ::
  "shader_env \<Rightarrow> gl_state \<Rightarrow> int \<Rightarrow> int \<Rightarrow> gl_renderer_c option \<times> gl_state" where
  "gl_renderer_create_c env g w h =
     (if \<not> calloc_ok env then (None, g)
      else
        (let g = host_alloc g;
             r = \<lparr>width_c = 0, height_c = 0, compute_program = 0, display_program = 0,
                  output_texture = 0, vao_c = 0, vbo_c = 0, ok_c = False\<rparr>;
             r = r\<lparr>width_c := w\<rparr>;
             r = r\<lparr>height_c := h\<rparr>;
             (comp_shader, g) = compile_shader env g GL_COMPUTE_SHADER ''shaders/raymarch.comp''
         in if comp_shader = 0 then (None, host_free g)
            else
              (let (prog, g) = link_compute_program env g comp_shader;
                   r = r\<lparr>compute_program := prog\<rparr>
               in if compute_program r = 0 then (None, host_free g)
                  else
                    (let (vert, g) = compile_shader env g GL_VERTEX_SHADER ''shaders/display.vert'';
                         (frag, g) = compile_shader env g GL_FRAGMENT_SHADER ''shaders/display.frag''
                     in if vert = 0 \<or> frag = 0
                        then (None, host_free (glDeleteProgram g (compute_program r)))
                        else
                          (let (prog, g) = link_program env g vert frag;
                               r = r\<lparr>display_program := prog\<rparr>
                           in if display_program r = 0
                              then (None, host_free (glDeleteProgram g (compute_program r)))
                              else
                                (let (r, g) = create_output_texture g r;
                                     (va, g) = glGenVertexArrays g;
                                     r = r\<lparr>vao_c := va\<rparr>;
                                     (vb, g) = glGenBuffers g;
                                     r = r\<lparr>vbo_c := vb\<rparr>;
                                     r = r\<lparr>ok_c := True\<rparr>
                                 in (Some r, g)))))))"

definition gl_renderer_destroy_c :: "gl_state \<Rightarrow> gl_renderer_c option \<Rightarrow> gl_state" where
  "gl_renderer_destroy_c g ro =
     (case ro of
        None \<Rightarrow> g
      | Some r \<Rightarrow>
          (let g = (if vao_c r \<noteq> 0 then glDeleteVertexArrays g (vao_c r) else g);
               g = (if vbo_c r \<noteq> 0 then glDeleteBuffers g (vbo_c r) else g);
               g = (if output_texture r \<noteq> 0 then glDeleteTextures g (output_texture r) else g);
               g = (if compute_program r \<noteq> 0 then glDeleteProgram g (compute_program r) else g);
               g = (if display_program r \<noteq> 0 then glDeleteProgram g (display_program r) else g)
           in host_free g))"

definition gl_renderer_draw_c ::
  "gl_renderer_c option \<Rightarrow> real \<Rightarrow> camera_t option \<Rightarrow> gl_cmd list" where
  "gl_renderer_draw_c ro time_s camo =
     (case ro of
        None \<Rightarrow> []
      | Some r \<Rightarrow>
          if \<not> ok_c r then []
          else
            [glUseProgram (compute_program r),
             glUniform2f (compute_program r) ''u_resolution''
               (real_of_int (width_c r)) (real_of_int (height_c r)),
             glUniform1f (compute_program r) ''u_time'' time_s]
            @ (case camo of
                 None \<Rightarrow> []
               | Some cam \<Rightarrow>
                   (let (fwd, right, up) = camera_basis cam
                    in [glUniform3fv (compute_program r) ''u_camera_pos'' (pos cam),
                        glUniform3fv (compute_program r) ''u_camera_forward'' fwd,
                        glUniform3fv (compute_program r) ''u_camera_right'' right,
                        glUniform3fv (compute_program r) ''u_camera_up'' up]))
            @ [glBindImageTexture 0 (output_texture r),
               glDispatchCompute (c_div (width_c r + 7) 8) (c_div (height_c r + 7) 8) 1,
               glMemoryBarrier,
               glClearColor 0.1 0.1 0.15 1, glClear,
               glUseProgram (display_program r),
               glActiveTexture 0,
               glBindTexture (output_texture r),
               glUniform1i (display_program r) ''u_image'' 0,
               glViewport 0 0 (width_c r) (height_c r),
               glBindVertexArray (vao_c r),
               glDrawArrays 0 4,
               glBindVertexArray 0])"

definition gl_renderer_resize_c ::
  "gl_state \<Rightarrow> gl_renderer_c option \<Rightarrow> int \<Rightarrow> int \<Rightarrow> gl_renderer_c option \<times> gl_state" where
  "gl_renderer_resize_c g ro w h =
     (case ro of
        None \<Rightarrow> (None, g)
      | Some r \<Rightarrow>
          (let r = r\<lparr>width_c := w\<rparr>;
               r = r\<lparr>height_c := h\<rparr>;
               (r, g) = create_output_texture g r
           in (Some r, g)))"

definition gl_renderer_reload_shaders_c ::
  "shader_env \<Rightarrow> gl_state \<Rightarrow> gl_renderer_c option \<Rightarrow> bool \<times> gl_renderer_c option \<times> gl_state" where
  "gl_renderer_reload_shaders_c env g ro =
     (case ro of
        None \<Rightarrow> (False, None, g)
      | Some r \<Rightarrow>
          if \<not> ok_c r then (False, Some r, g)
          else
            (let (comp_shader, g) = compile_shader env g GL_COMPUTE_SHADER ''shaders/raymarch.comp''
             in if comp_shader = 0 then (False, Some r, g)
                else
                  (let (new_comp, g) = link_compute_program env g comp_shader
                   in if new_comp = 0 then (False, Some r, g)
                      else
                        (let (vert, g) = compile_shader env g GL_VERTEX_SHADER ''shaders/display.vert'';
                             (frag, g) = compile_shader env g GL_FRAGMENT_SHADER ''shaders/display.frag''
                         in if vert = 0 \<or> frag = 0
                            then (False, Some r, glDeleteProgram g new_comp)
                            else
                              (let (new_disp, g) = link_program env g vert frag
                               in if new_disp = 0
                                  then (False, Some r, glDeleteProgram g new_comp)
                                  else
                                    (let g = glDeleteProgram g (compute_program r);
                                         g = glDeleteProgram g (display_program r);
                                         r = r\<lparr>compute_program := new_comp\<rparr>;
                                         r = r\<lparr>display_program := new_disp\<rparr>
                                     in (True, Some r, g)))))))"

definition gl_renderer_ok_c :: "gl_renderer_c option \<Rightarrow> bool" where
  "gl_renderer_ok_c ro = (case ro of None \<Rightarrow> False | Some r \<Rightarrow> ok_c r)"

subsection \<open>Vocabulary for the renderer properties\<close>

text \<open>
  The source text of a shader file when every step of \<^verbatim>\<open>compile_shader\<close> on it succeeds
  (the file opens, is not empty, the buffer is allocated, the stage compiles), and
  \<open>None\<close> when a step fails.
\<close>

definition compiled_source :: "shader_env \<Rightarrow> GLenum \<Rightarrow> string \<Rightarrow> string option" where
  "compiled_source env type path =
     (case files env path of
        None \<Rightarrow> None
      | Some src \<Rightarrow> if src \<noteq> [] \<and> malloc_ok env path \<and> compile_status env type src then Some src else None)"

text \<open>
  Every load, compile and link step of a build succeeds: for the single program of the
  Direct renderer, and for the compute and display programs of the Compute+blit renderer.
\<close>

definition direct_build_ok :: "shader_env \<Rightarrow> bool" where
  "direct_build_ok env =
     (case compiled_source env GL_VERTEX_SHADER ''shaders/raymarch.vert'' of
        None \<Rightarrow> False
      | Some sv \<Rightarrow>
          (case compiled_source env GL_FRAGMENT_SHADER ''shaders/raymarch.frag'' of
             None \<Rightarrow> False
           | Some sf \<Rightarrow> link_status env [sv, sf]))"

definition compute_build_ok :: "shader_env \<Rightarrow> bool" where
  "compute_build_ok env =
     (case compiled_source env GL_COMPUTE_SHADER ''shaders/raymarch.comp'' of
        None \<Rightarrow> False
      | Some sc \<Rightarrow>
          link_status env [sc] \<and>
          (case compiled_source env GL_VERTEX_SHADER ''shaders/display.vert'' of
             None \<Rightarrow> False
           | Some sv \<Rightarrow>
               (case compiled_source env GL_FRAGMENT_SHADER ''shaders/display.frag'' of
                  None \<Rightarrow> False
                | Some sf \<Rightarrow> link_status env [sv, sf])))"

text \<open>
  The names that a build hands out, starting from a given object table: the program
  linked from a freshly compiled pair of shaders, and the program linked from one
  freshly compiled shader.
\<close>

definition pair_program_name :: "gl_state \<Rightarrow> GLuint" where
  "pair_program_name g =
     (let v = fresh_name (map fst (shaders g) @ programs g);
          f = fresh_name (v # map fst (shaders g) @ programs g)
      in fresh_name (f # v # map fst (shaders g) @ programs g))"

definition single_program_name :: "gl_state \<Rightarrow> GLuint" where
  "single_program_name g =
     fresh_name (fresh_name (map fst (shaders g) @ programs g) # map fst (shaders g) @ programs g)"

section \<open>Properties of the SDF operators\<close>

text \<open>
  C2 (as stated, refuted): for every pair of operands, both overloads of
  \<^verbatim>\<open>opSubtraction(a,b)\<close> return the distance \<open>max(a.d, -b.d)\<close>. The \<^verbatim>\<open>float\<close> overload
  returns \<open>max(-a, b)\<close> instead; at \<open>a = 1\<close>, \<open>b = 0\<close> it returns \<open>0\<close>, not \<open>1\<close>.
\<close>

theorem opSubtraction_f_not_carve_b_from_a:
  "opSubtraction_f 1 0 \<noteq> max (1::real) (- 0)"
  by (simp add: opSubtraction_f_def)

text \<open>
  C2 (amended): for every pair of \<^verbatim>\<open>SDFHit\<close> operands, \<^verbatim>\<open>opSubtraction(a,b)\<close> carves b from
  a: its distance is \<open>max(a.d, -b.d)\<close> and its colour is a's. The \<^verbatim>\<open>float\<close> overload takes
  its operands the other way round: \<^verbatim>\<open>opSubtraction(a,b)\<close> is \<open>max(-a, b)\<close>, which carves a
  from b, so that it agrees with the \<^verbatim>\<open>SDFHit\<close> overload on swapped operands.
\<close>

theorem opSubtraction_carves:
  "d (opSubtraction a b) = max (d a) (- d b)
   \<and> color (opSubtraction a b) = color a
   \<and> opSubtraction_f x y = max (- x) y
   \<and> opSubtraction_f (d b) (d a) = d (opSubtraction a b)"
  by (simp add: opSubtraction_def opSubtraction_f_def max.commute)

text \<open>
  C5: for every pair of \<^verbatim>\<open>SDFHit\<close> operands and every blend parameter \<open>k > 0\<close>,
  \<^verbatim>\<open>opSmoothUnion(a,b,k)\<close> has distance \<open>min(a.d,b.d) - h\<^sup>2/(16k)\<close> with
  \<open>h = max(4k - |a.d - b.d|, 0)\<close>, and colour \<open>mix(a.color, b.color, t)\<close> with
  \<open>t = clamp(0.5 + 0.5 (b.d - a.d)/(4k), 0, 1)\<close>. The \<^verbatim>\<open>float\<close> overload returns the same
  distance.
\<close>

theorem opSmoothUnion_formula:
  assumes "0 < k"
  shows "d (opSmoothUnion a b k)
           = min (d a) (d b) - (max (4 * k - \<bar>d a - d b\<bar>) 0)\<^sup>2 / (16 * k)
         \<and> color (opSmoothUnion a b k)
           = mix (color a) (color b) (clamp (0.5 + 0.5 * (d b - d a) / (4 * k)) 0 1)
         \<and> opSmoothUnion_f (d a) (d b) k = d (opSmoothUnion a b k)"
  using assms
  by (simp add: opSmoothUnion_def opSmoothUnion_f_def Let_def power2_eq_square mult.commute)

theorem opSmoothUnion_formula_witness:
  "(0::real) < 1
   \<and> d (opSmoothUnion \<lparr>d = 1, color = Vec3 1 0 0\<rparr> \<lparr>d = 3, color = Vec3 0 0 1\<rparr> 1) = 3 / 4
   \<and> color (opSmoothUnion \<lparr>d = 1, color = Vec3 1 0 0\<rparr> \<lparr>d = 3, color = Vec3 0 0 1\<rparr> 1)
       = Vec3 (1 / 4) 0 (3 / 4)"
  using opSmoothUnion_formula [of 1 "\<lparr>d = 1, color = Vec3 1 0 0\<rparr>" "\<lparr>d = 3, color = Vec3 0 0 1\<rparr>"]
  by (simp add: mix_def clamp_def vadd_def smul_def power2_eq_square)

text \<open>
  C6: for every pair of \<^verbatim>\<open>SDFHit\<close> operands, the distance of \<^verbatim>\<open>opUnion(a,b)\<close> is
  \<open>min(a.d, b.d)\<close> and its colour is the colour of the operand with the smaller distance
  (on a tie the result is b). The \<^verbatim>\<open>float\<close> overload returns the same distance.
\<close>

theorem opUnion_min:
  "d (opUnion a b) = min (d a) (d b)
   \<and> (d a < d b \<longrightarrow> color (opUnion a b) = color a)
   \<and> (d b < d a \<longrightarrow> color (opUnion a b) = color b)
   \<and> (d a = d b \<longrightarrow> opUnion a b = b)
   \<and> opUnion_f (d a) (d b) = d (opUnion a b)"
  by (simp add: opUnion_def opUnion_f_def min_def)

theorem opUnion_min_witness:
  "d (opUnion \<lparr>d = 1, color = Vec3 1 0 0\<rparr> \<lparr>d = 2, color = Vec3 0 0 1\<rparr>) = 1
   \<and> color (opUnion \<lparr>d = 1, color = Vec3 1 0 0\<rparr> \<lparr>d = 2, color = Vec3 0 0 1\<rparr>) = Vec3 1 0 0
   \<and> color (opUnion \<lparr>d = 2, color = Vec3 1 0 0\<rparr> \<lparr>d = 1, color = Vec3 0 0 1\<rparr>) = Vec3 0 0 1"
  using opUnion_min [of "\<lparr>d = 1, color = Vec3 1 0 0\<rparr>" "\<lparr>d = 2, color = Vec3 0 0 1\<rparr>"]
        opUnion_min [of "\<lparr>d = 2, color = Vec3 1 0 0\<rparr>" "\<lparr>d = 1, color = Vec3 0 0 1\<rparr>"]
  by simp

section \<open>Properties of the camera\<close>

text \<open>
  The pitch that \<^verbatim>\<open>camera_update\<close> stores depends only on the old pitch and the vertical
  mouse delta: the selector is pushed through the local bindings, and the bindings the
  pitch does not use are dropped.
\<close>

lemma pitch_Let: "pitch (Let a f) = (let v = a in pitch (f v))"
  by (simp add: Let_def)

lemma yaw_Let: "yaw (Let a f) = (let v = a in yaw (f v))"
  by (simp add: Let_def)

lemma Let_unused: "(let v = a in c) = c"
  by simp

lemma camera_update_pitch:
  "pitch (camera_update cam dt keys mouse_dx mouse_dy) =
     (let pitch1 = pitch cam - real_of_int mouse_dy * MOUSE_SENSITIVITY;
          pitch2 = (if pitch1 > 1.57 then 1.57 else pitch1)
      in if pitch2 < - 1.57 then - 1.57 else pitch2)"
  unfolding camera_update_def
  apply (simp only: pitch_Let camera_t.select_convs)
  apply (simp only: Let_unused)
  apply (simp only: Let_def)
  done

lemma camera_update_yaw:
  "yaw (camera_update cam dt keys mouse_dx mouse_dy)
     = yaw cam + real_of_int mouse_dx * MOUSE_SENSITIVITY"
  unfolding camera_update_def
  apply (simp only: yaw_Let camera_t.select_convs)
  apply (simp only: Let_unused)
  apply (simp only: Let_def)
  done

text \<open>
  C7: for every camera state, every \<open>dt\<close>, every keyboard state and every mouse delta,
  the pitch after \<^verbatim>\<open>camera_update\<close> lies in \<open>[-1.57, 1.57]\<close>.
\<close>

theorem camera_update_pitch_clamped:
  "- 1.57 \<le> pitch (camera_update cam dt keys mouse_dx mouse_dy)
   \<and> pitch (camera_update cam dt keys mouse_dx mouse_dy) \<le> 1.57"
  unfolding camera_update_pitch by (simp add: Let_def)

subsection \<open>The cosine of a clamped pitch is positive\<close>

text \<open>
  The clamp bound \<open>1.57\<close> is below \<open>\<pi>/2\<close>. The library gives no decimal bound on \<open>\<pi>\<close>,
  so the sign of \<open>cos 1.57\<close> comes from the Maclaurin expansion of the cosine to order 12.
\<close>

lemma lessThan_12: "{..<12::nat} = {0,1,2,3,4,5,6,7,8,9,10,11}"
proof -
  have "\<And>n::nat. n < 12 \<longleftrightarrow> n \<in> {0,1,2,3,4,5,6,7,8,9,10,11}"
    by (simp only: insert_iff empty_iff) arith
  then show ?thesis by blast
qed

lemma cos_coeff_vals:
  "cos_coeff (Suc 0) = 0" "cos_coeff 2 = - 1 / 2" "cos_coeff 3 = 0"
  "cos_coeff 4 = 1 / 24" "cos_coeff 5 = 0" "cos_coeff 6 = - 1 / 720" "cos_coeff 7 = 0"
  "cos_coeff 8 = 1 / 40320" "cos_coeff 9 = 0" "cos_coeff 10 = - 1 / 3628800" "cos_coeff 11 = 0"
  by (simp_all add: cos_coeff_def fact_numeral)

lemma cos_poly12:
  "(\<Sum>m<12. cos_coeff m * (x::real) ^ m)
     = 1 - x^2 / 2 + x^4 / 24 - x^6 / 720 + x^8 / 40320 - x^10 / 3628800"
  unfolding lessThan_12 by (simp add: cos_coeff_vals)

lemma cos_lower_bound:
  assumes "0 < (x::real)"
  shows "1 - x^2 / 2 + x^4 / 24 - x^6 / 720 + x^8 / 40320 - x^10 / 3628800
           - x^12 / 479001600 \<le> cos x"
proof -
  obtain t where t: "cos x = (\<Sum>m<12. cos_coeff m * x ^ m)
                       + (cos (t + 1/2 * real 12 * pi) / fact 12) * x ^ 12"
    using Maclaurin_cos_expansion2 [of x 12] assms by auto
  have "- 1 \<le> cos (t + 1/2 * real 12 * pi)" by (rule cos_ge_minus_one)
  then have "- (x ^ 12) \<le> cos (t + 1/2 * real 12 * pi) * x ^ 12"
    using assms by (metis mult_minus_left mult_1 mult_right_mono zero_le_power less_imp_le)
  then have "- (x ^ 12 / 479001600) \<le> (cos (t + 1/2 * real 12 * pi) / fact 12) * x ^ 12"
    by (simp add: fact_numeral divide_simps)
  with t show ?thesis unfolding cos_poly12 by linarith
qed

lemma cos_157_pos: "0 < cos (157 / 100 :: real)"
proof -
  have "(0::real) < 1 - (157/100)^2 / 2 + (157/100)^4 / 24 - (157/100)^6 / 720
          + (157/100)^8 / 40320 - (157/100)^10 / 3628800 - (157/100)^12 / 479001600"
    by (simp add: power_divide)
  also have "\<dots> \<le> cos (157 / 100 :: real)"
    by (rule cos_lower_bound) simp
  finally show ?thesis .
qed

lemma pi_half_gt_157: "157 / 100 < pi / 2"
proof (rule ccontr)
  assume "\<not> 157 / 100 < pi / 2"
  then have "pi / 2 \<le> 157 / 100" by simp
  moreover have "(157 / 100 :: real) \<le> pi" using pi_ge_two by linarith
  ultimately have "cos (157 / 100) \<le> cos (pi / 2)"
    using cos_monotone_0_pi_le [of "pi / 2" "157 / 100"] pi_gt_zero by simp
  with cos_157_pos show False by simp
qed

lemma cos_pitch_pos: "- 157 / 100 \<le> p \<Longrightarrow> p \<le> 157 / 100 \<Longrightarrow> 0 < cos (p::real)"
  using pi_half_gt_157 by (intro cos_gt_zero_pi) linarith+

subsection \<open>The view basis\<close>

lemma sin_cos_sq: "sin a * sin a + cos a * cos a = (1::real)"
  using sin_cos_squared_add [of a] by (simp add: power2_eq_square)

lemma right_norm_sq:
  fixes cp sy cy :: real
  assumes "sy * sy + cy * cy = 1"
  shows "cp * cy * (cp * cy) + cp * sy * (cp * sy) = cp\<^sup>2"
  using assms by algebra

lemma fwd_up_dot:
  fixes cp sp sy cy :: real
  assumes "sy * sy + cy * cy = 1"
  shows "cp * sy * (- sy * sp) + sp * cp + - cp * cy * (cy * sp) = 0"
  using assms by algebra

lemma fwd_len_sq:
  fixes cp sp sy cy :: real
  assumes "sy * sy + cy * cy = 1" and "sp * sp + cp * cp = 1"
  shows "cp * sy * (cp * sy) + sp * sp + - cp * cy * (- cp * cy) = 1"
  using assms by algebra

lemma up_len_sq:
  fixes cp sp sy cy :: real
  assumes "sy * sy + cy * cy = 1" and "sp * sp + cp * cp = 1"
  shows "- sy * sp * (- sy * sp) + cp * cp + cy * sp * (cy * sp) = 1"
  using assms by algebra

lemma up_y_eq:
  fixes cp sy cy :: real
  assumes "sy * sy + cy * cy = 1"
  shows "sy * (cp * sy) - cy * (- cp * cy) = cp"
  using assms by algebra

lemma camera_basis_explicit:
  assumes "0 < cos (pitch cam)"
  shows "camera_basis cam =
           (Vec3 (cos (pitch cam) * sin (yaw cam)) (sin (pitch cam)) (- cos (pitch cam) * cos (yaw cam)),
            Vec3 (cos (yaw cam)) 0 (sin (yaw cam)),
            Vec3 (- sin (yaw cam) * sin (pitch cam)) (cos (pitch cam)) (cos (yaw cam) * sin (pitch cam)))"
proof -
  let ?cp = "cos (pitch cam)" and ?sp = "sin (pitch cam)"
  let ?cy = "cos (yaw cam)" and ?sy = "sin (yaw cam)"
  let ?fwd = "Vec3 (?cp * ?sy) ?sp (- ?cp * ?cy)"
  let ?raw = "Vec3 (vy ?fwd * vz (Vec3 0 1 0) - vz ?fwd * vy (Vec3 0 1 0))
                   (vz ?fwd * vx (Vec3 0 1 0) - vx ?fwd * vz (Vec3 0 1 0))
                   (vx ?fwd * vy (Vec3 0 1 0) - vy ?fwd * vx (Vec3 0 1 0))"
  have raw: "?raw = Vec3 (?cp * ?cy) 0 (?cp * ?sy)" by simp
  have "sqrt (?cp * ?cy * (?cp * ?cy) + 0 * 0 + ?cp * ?sy * (?cp * ?sy)) = sqrt (?cp\<^sup>2)"
    using right_norm_sq [OF sin_cos_sq, of ?cp "yaw cam"] by simp
  then have n: "sqrt (?cp * ?cy * (?cp * ?cy) + 0 * 0 + ?cp * ?sy * (?cp * ?sy)) = ?cp"
    using assms by simp
  have right: "Vec3 (?cp * ?cy * (1 / ?cp)) (0 * (1 / ?cp)) (?cp * ?sy * (1 / ?cp))
                 = Vec3 ?cy 0 ?sy"
    using assms by simp
  have up: "Vec3 (0 * (- ?cp * ?cy) - ?sy * ?sp) (?sy * (?cp * ?sy) - ?cy * (- ?cp * ?cy))
                 (?cy * ?sp - 0 * (?cp * ?sy))
              = Vec3 (- ?sy * ?sp) ?cp (?cy * ?sp)"
    using up_y_eq [OF sin_cos_sq, of "yaw cam" ?cp] by simp
  show ?thesis
    unfolding camera_basis_def Let_def raw
    unfolding vec3.sel n right
    unfolding vec3.sel up ..
qed

text \<open>
  C8: for every camera state whose pitch lies in \<open>[-1.57, 1.57]\<close>, the forward, right and
  up vectors computed by \<^verbatim>\<open>camera_basis\<close> are, over the reals, mutually orthogonal unit
  vectors: each pairwise dot product is 0 and each magnitude is 1.
\<close>

theorem camera_basis_orthonormal:
  assumes "- 1.57 \<le> pitch cam" and "pitch cam \<le> 1.57"
  shows "case camera_basis cam of (fwd, right, up) \<Rightarrow>
           dot fwd right = 0 \<and> dot fwd up = 0 \<and> dot right up = 0
           \<and> length_v fwd = 1 \<and> length_v right = 1 \<and> length_v up = 1"
proof -
  let ?cp = "cos (pitch cam)" and ?sp = "sin (pitch cam)"
  let ?cy = "cos (yaw cam)" and ?sy = "sin (yaw cam)"
  have cp: "0 < ?cp" using assms by (intro cos_pitch_pos) simp_all
  have y: "?sy * ?sy + ?cy * ?cy = 1" and p: "?sp * ?sp + ?cp * ?cp = 1"
    by (rule sin_cos_sq)+
  have 1: "?cp * ?sy * ?cy + ?sp * 0 + - ?cp * ?cy * ?sy = 0" by simp
  have 2: "?cp * ?sy * (- ?sy * ?sp) + ?sp * ?cp + - ?cp * ?cy * (?cy * ?sp) = 0"
    using y by (rule fwd_up_dot)
  have 3: "?cy * (- ?sy * ?sp) + 0 * ?cp + ?sy * (?cy * ?sp) = 0" by simp
  have 4: "sqrt (?cp * ?sy * (?cp * ?sy) + ?sp * ?sp + - ?cp * ?cy * (- ?cp * ?cy)) = 1"
    by (simp only: fwd_len_sq [OF y p] real_sqrt_one)
  have "?cy * ?cy + 0 * 0 + ?sy * ?sy = 1" using y by simp
  then have 5: "sqrt (?cy * ?cy + 0 * 0 + ?sy * ?sy) = 1"
    by (simp only: real_sqrt_one)
  have 6: "sqrt (- ?sy * ?sp * (- ?sy * ?sp) + ?cp * ?cp + ?cy * ?sp * (?cy * ?sp)) = 1"
    by (simp only: up_len_sq [OF y p] real_sqrt_one)
  show ?thesis
    unfolding camera_basis_explicit [OF cp] prod.case dot_def length_v_def vec3.sel
    using 1 2 3 4 5 6 by (intro conjI)
qed

theorem camera_basis_orthonormal_witness:
  "- 1.57 \<le> pitch \<lparr>pos = Vec3 0 0 5, yaw = 0, pitch = 0\<rparr>
   \<and> pitch \<lparr>pos = Vec3 0 0 5, yaw = 0, pitch = 0\<rparr> \<le> 1.57
   \<and> camera_basis \<lparr>pos = Vec3 0 0 5, yaw = 0, pitch = 0\<rparr>
       = (Vec3 0 0 (- 1), Vec3 1 0 0, Vec3 0 1 0)
   \<and> dot (Vec3 0 0 (- 1)) (Vec3 1 0 0) = 0
   \<and> length_v (Vec3 0 0 (- 1)) = 1"
  using camera_basis_orthonormal [of "\<lparr>pos = Vec3 0 0 5, yaw = 0, pitch = 0\<rparr>"]
  by (simp add: camera_basis_def)

section \<open>Properties of the raymarcher\<close>

subsection \<open>The sphere-tracing loop\<close>

lemma raymarch_loop_done:
  "\<not> step < 128 \<Longrightarrow> raymarch_loop scene origin dir step cur_dist = (no_hit, [])"
  by (subst raymarch_loop.simps) simp

lemma raymarch_loop_hit:
  "step < 128 \<Longrightarrow> ray_distance scene origin dir cur_dist < 0.001 \<Longrightarrow>
   raymarch_loop scene origin dir step cur_dist =
     (\<lparr>hit = True, hit_pos = vadd origin (smul cur_dist dir),
       hit_normal = calc_normal scene (vadd origin (smul cur_dist dir)),
       hit_color = color (scene (vadd origin (smul cur_dist dir)))\<rparr>, [cur_dist])"
  by (subst raymarch_loop.simps) (simp add: ray_distance_def Let_def)

lemma raymarch_loop_far:
  "step < 128 \<Longrightarrow> \<not> ray_distance scene origin dir cur_dist < 0.001 \<Longrightarrow>
   cur_dist + ray_distance scene origin dir cur_dist > 100 \<Longrightarrow>
   raymarch_loop scene origin dir step cur_dist = (no_hit, [cur_dist])"
  by (subst raymarch_loop.simps) (simp add: ray_distance_def Let_def)

lemma raymarch_loop_step:
  "step < 128 \<Longrightarrow> \<not> ray_distance scene origin dir cur_dist < 0.001 \<Longrightarrow>
   \<not> cur_dist + ray_distance scene origin dir cur_dist > 100 \<Longrightarrow>
   raymarch_loop scene origin dir step cur_dist =
     (fst (raymarch_loop scene origin dir (Suc step)
             (cur_dist + ray_distance scene origin dir cur_dist)),
      cur_dist # snd (raymarch_loop scene origin dir (Suc step)
             (cur_dist + ray_distance scene origin dir cur_dist)))"
  by (subst raymarch_loop.simps) (simp add: ray_distance_def Let_def split: prod.splits)

lemmas raymarch_loop_cases =
  raymarch_loop_done raymarch_loop_hit raymarch_loop_far raymarch_loop_step

lemma raymarch_loop_length:
  "length (snd (raymarch_loop scene origin dir step cur_dist)) \<le> 128 - step"
proof (induction "128 - step" arbitrary: step cur_dist)
  case 0
  then show ?case by (simp add: raymarch_loop_done)
next
  case (Suc n)
  then have lt: "step < 128" and n: "n = 128 - Suc step" by simp_all
  consider (hit) "ray_distance scene origin dir cur_dist < 0.001"
    | (far) "\<not> ray_distance scene origin dir cur_dist < 0.001"
            "cur_dist + ray_distance scene origin dir cur_dist > 100"
    | (step) "\<not> ray_distance scene origin dir cur_dist < 0.001"
             "\<not> cur_dist + ray_distance scene origin dir cur_dist > 100"
    by blast
  then show ?case
  proof cases
    case hit
    with lt show ?thesis by (simp add: raymarch_loop_hit)
  next
    case far
    with lt show ?thesis by (simp add: raymarch_loop_far)
  next
    case step
    with lt Suc.hyps(1) [OF n, of "cur_dist + ray_distance scene origin dir cur_dist"]
    show ?thesis by (simp add: raymarch_loop_step)
  qed
qed

lemma raymarch_loop_miss:
  "\<forall>t\<in>set (snd (raymarch_loop scene origin dir step cur_dist)).
      0.001 \<le> ray_distance scene origin dir t
   \<Longrightarrow> fst (raymarch_loop scene origin dir step cur_dist) = no_hit"
proof (induction "128 - step" arbitrary: step cur_dist)
  case 0
  then show ?case by (simp add: raymarch_loop_done)
next
  case (Suc n)
  then have lt: "step < 128" and n: "n = 128 - Suc step" by simp_all
  consider (hit) "ray_distance scene origin dir cur_dist < 0.001"
    | (far) "\<not> ray_distance scene origin dir cur_dist < 0.001"
            "cur_dist + ray_distance scene origin dir cur_dist > 100"
    | (step) "\<not> ray_distance scene origin dir cur_dist < 0.001"
             "\<not> cur_dist + ray_distance scene origin dir cur_dist > 100"
    by blast
  then show ?case
  proof cases
    case hit
    with lt Suc.prems show ?thesis by (simp add: raymarch_loop_hit)
  next
    case far
    with lt show ?thesis by (simp add: raymarch_loop_far)
  next
    case step
    with lt Suc.prems
    have "\<forall>t\<in>set (snd (raymarch_loop scene origin dir (Suc step)
                 (cur_dist + ray_distance scene origin dir cur_dist))).
             0.001 \<le> ray_distance scene origin dir t"
      by (simp add: raymarch_loop_step)
    from Suc.hyps(1) [OF n this] lt step show ?thesis
      by (simp add: raymarch_loop_step)
  qed
qed

lemma raymarch_loop_head:
  "snd (raymarch_loop scene origin dir step cur_dist) \<noteq> [] \<Longrightarrow>
   hd (snd (raymarch_loop scene origin dir step cur_dist)) = cur_dist"
  by (cases "step < 128"; cases "ray_distance scene origin dir cur_dist < 0.001";
      cases "cur_dist + ray_distance scene origin dir cur_dist > 100")
     (simp_all add: raymarch_loop_cases)

lemma raymarch_loop_advance:
  "Suc i < length (snd (raymarch_loop scene origin dir step cur_dist)) \<Longrightarrow>
   snd (raymarch_loop scene origin dir step cur_dist) ! Suc i
     = snd (raymarch_loop scene origin dir step cur_dist) ! i
       + ray_distance scene origin dir (snd (raymarch_loop scene origin dir step cur_dist) ! i)"
proof (induction "128 - step" arbitrary: step cur_dist i)
  case 0
  then show ?case by (simp add: raymarch_loop_done)
next
  case (Suc n)
  then have lt: "step < 128" and n: "n = 128 - Suc step" by simp_all
  let ?next = "snd (raymarch_loop scene origin dir (Suc step)
                 (cur_dist + ray_distance scene origin dir cur_dist))"
  consider (hit) "ray_distance scene origin dir cur_dist < 0.001"
    | (far) "\<not> ray_distance scene origin dir cur_dist < 0.001"
            "cur_dist + ray_distance scene origin dir cur_dist > 100"
    | (step) "\<not> ray_distance scene origin dir cur_dist < 0.001"
             "\<not> cur_dist + ray_distance scene origin dir cur_dist > 100"
    by blast
  then show ?case
  proof cases
    case hit
    with lt Suc.prems show ?thesis by (simp add: raymarch_loop_hit)
  next
    case far
    with lt Suc.prems show ?thesis by (simp add: raymarch_loop_far)
  next
    case step
    with lt have eq: "snd (raymarch_loop scene origin dir step cur_dist) = cur_dist # ?next"
      by (simp add: raymarch_loop_step)
    show ?thesis
    proof (cases i)
      case 0
      with Suc.prems eq have "?next \<noteq> []" by auto
      then have "hd ?next = cur_dist + ray_distance scene origin dir cur_dist"
        by (rule raymarch_loop_head)
      with \<open>?next \<noteq> []\<close> 0 eq show ?thesis by (simp add: hd_conv_nth)
    next
      case (Suc j)
      with Suc.prems eq have "Suc j < length ?next" by simp
      from Suc.hyps(1) [OF n this] Suc eq show ?thesis by simp
    qed
  qed
qed

lemma raymarch_loop_stop:
  assumes "\<forall>t\<in>set (snd (raymarch_loop scene origin dir step cur_dist)).
             0.001 \<le> ray_distance scene origin dir t"
    and "step \<le> 128"
  shows "length (snd (raymarch_loop scene origin dir step cur_dist)) = 128 - step
         \<or> (snd (raymarch_loop scene origin dir step cur_dist) \<noteq> []
            \<and> last (snd (raymarch_loop scene origin dir step cur_dist))
                + ray_distance scene origin dir
                    (last (snd (raymarch_loop scene origin dir step cur_dist))) > 100)"
  using assms
proof (induction "128 - step" arbitrary: step cur_dist)
  case 0
  then show ?case by (simp add: raymarch_loop_done)
next
  case (Suc n)
  then have lt: "step < 128" and n: "n = 128 - Suc step" and le: "Suc step \<le> 128" by simp_all
  let ?next = "snd (raymarch_loop scene origin dir (Suc step)
                 (cur_dist + ray_distance scene origin dir cur_dist))"
  consider (hit) "ray_distance scene origin dir cur_dist < 0.001"
    | (far) "\<not> ray_distance scene origin dir cur_dist < 0.001"
            "cur_dist + ray_distance scene origin dir cur_dist > 100"
    | (step) "\<not> ray_distance scene origin dir cur_dist < 0.001"
             "\<not> cur_dist + ray_distance scene origin dir cur_dist > 100"
    by blast
  then show ?case
  proof cases
    case hit
    with lt Suc.prems show ?thesis by (simp add: raymarch_loop_hit)
  next
    case far
    with lt show ?thesis by (simp add: raymarch_loop_far)
  next
    case step
    with lt have eq: "snd (raymarch_loop scene origin dir step cur_dist) = cur_dist # ?next"
      by (simp add: raymarch_loop_step)
    with Suc.prems have "\<forall>t\<in>set ?next. 0.001 \<le> ray_distance scene origin dir t"
      by simp
    from Suc.hyps(1) [OF n this le] lt show ?thesis
      unfolding eq by auto
  qed
qed

lemma raymarch_loop_samples_range:
  assumes "\<forall>t. 0 \<le> t \<and> t \<le> 100 \<longrightarrow> 0.001 \<le> ray_distance scene origin dir t"
    and "0 \<le> cur_dist" and "cur_dist \<le> 100"
  shows "\<forall>t\<in>set (snd (raymarch_loop scene origin dir step cur_dist)). 0 \<le> t \<and> t \<le> 100"
  using assms(2,3)
proof (induction "128 - step" arbitrary: step cur_dist)
  case 0
  then show ?case by (simp add: raymarch_loop_done)
next
  case (Suc n)
  from Suc.hyps(2) have lt: "step < 128" and n: "n = 128 - Suc step" by simp_all
  from assms(1) Suc.prems have "0.001 \<le> ray_distance scene origin dir cur_dist"
    by blast
  then have far: "\<not> ray_distance scene origin dir cur_dist < 0.001"
    and nonneg: "0 \<le> ray_distance scene origin dir cur_dist"
    by simp_all
  show ?case
  proof (cases "cur_dist + ray_distance scene origin dir cur_dist > 100")
    case True
    show ?thesis
      unfolding raymarch_loop_far [OF lt far True] using Suc.prems by simp
  next
    case False
    then have le: "cur_dist + ray_distance scene origin dir cur_dist \<le> 100" by simp
    from nonneg Suc.prems(1)
    have ge: "0 \<le> cur_dist + ray_distance scene origin dir cur_dist" by simp
    have "\<forall>t\<in>set (snd (raymarch_loop scene origin dir (Suc step)
             (cur_dist + ray_distance scene origin dir cur_dist))). 0 \<le> t \<and> t \<le> 100"
      using n ge le by (rule Suc.hyps(1))
    then show ?thesis
      unfolding raymarch_loop_step [OF lt far False] using Suc.prems by simp
  qed
qed

lemma raymarch_clear_ray_no_hit:
  assumes "\<forall>t. 0 \<le> t \<and> t \<le> 100 \<longrightarrow> 0.001 \<le> ray_distance scene origin dir t"
  shows "raymarch scene origin dir = no_hit"
proof -
  have "\<forall>t\<in>set (snd (raymarch_loop scene origin dir 0 0)). 0 \<le> t \<and> t \<le> 100"
    using assms by (rule raymarch_loop_samples_range) simp_all
  with assms have "\<forall>t\<in>set (snd (raymarch_loop scene origin dir 0 0)).
                     0.001 \<le> ray_distance scene origin dir t"
    by blast
  then show ?thesis
    unfolding raymarch_def by (rule raymarch_loop_miss)
qed

lemma raymarch_samples_nonempty: "raymarch_samples scene origin dir \<noteq> []"
  unfolding raymarch_samples_def
  by (cases "ray_distance scene origin dir 0 < 0.001";
      cases "0 + ray_distance scene origin dir 0 > 100")
     (simp_all add: raymarch_loop_cases)

text \<open>
  C3: for every ray whose scene-distance samples, as taken by the loop, all stay at or
  above the hit threshold \<open>0.001\<close>, \<^verbatim>\<open>raymarch\<close> returns \<open>hit = false\<close> (all four outputs keep
  their initial values). The loop then evaluates the scene at most 128 times (once per
  sample; \<^verbatim>\<open>calc_normal\<close> runs on a hit only), starts at marching distance 0, advances
  from each sample to the next by exactly the scene distance it read, and stops because
  the step budget is used up or the accumulated distance exceeds 100.
\<close>

theorem raymarch_miss:
  fixes scene origin dir
  defines "ts \<equiv> raymarch_samples scene origin dir"
  assumes "\<forall>t\<in>set ts. 0.001 \<le> ray_distance scene origin dir t"
  shows "hit (raymarch scene origin dir) = False
         \<and> raymarch scene origin dir = no_hit
         \<and> length ts \<le> 128
         \<and> ts \<noteq> [] \<and> hd ts = 0
         \<and> (\<forall>i. Suc i < length ts \<longrightarrow> ts ! Suc i = ts ! i + ray_distance scene origin dir (ts ! i))
         \<and> (length ts = 128 \<or> last ts + ray_distance scene origin dir (last ts) > 100)"
proof -
  have miss: "raymarch scene origin dir = no_hit"
    unfolding raymarch_def
    using assms(2) [unfolded ts_def raymarch_samples_def] by (rule raymarch_loop_miss)
  have len: "length ts \<le> 128"
    using raymarch_loop_length [of scene origin dir 0 0] by (simp add: ts_def raymarch_samples_def)
  have ne: "ts \<noteq> []" unfolding ts_def by (rule raymarch_samples_nonempty)
  then have hd: "hd ts = 0"
    unfolding ts_def raymarch_samples_def by (rule raymarch_loop_head)
  have adv: "\<forall>i. Suc i < length ts \<longrightarrow> ts ! Suc i = ts ! i + ray_distance scene origin dir (ts ! i)"
    unfolding ts_def raymarch_samples_def by (intro allI impI raymarch_loop_advance)
  have stop: "length ts = 128 \<or> last ts + ray_distance scene origin dir (last ts) > 100"
    using raymarch_loop_stop [OF assms(2) [unfolded ts_def raymarch_samples_def] le0]
    unfolding ts_def raymarch_samples_def by auto
  from miss len ne hd adv stop show ?thesis by (simp add: no_hit_def)
qed

theorem raymarch_miss_witness:
  "raymarch_samples (\<lambda>p. \<lparr>d = 60, color = Vec3 1 1 1\<rparr>) (Vec3 0 0 0) (Vec3 0 0 (- 1)) = [0, 60]
   \<and> 0.001 \<le> ray_distance (\<lambda>p. \<lparr>d = 60, color = Vec3 1 1 1\<rparr>) (Vec3 0 0 0) (Vec3 0 0 (- 1)) 0
   \<and> 0.001 \<le> ray_distance (\<lambda>p. \<lparr>d = 60, color = Vec3 1 1 1\<rparr>) (Vec3 0 0 0) (Vec3 0 0 (- 1)) 60
   \<and> hit (raymarch (\<lambda>p. \<lparr>d = 60, color = Vec3 1 1 1\<rparr>) (Vec3 0 0 0) (Vec3 0 0 (- 1))) = False"
proof -
  let ?scene = "\<lambda>p::vec3. \<lparr>d = 60, color = Vec3 1 1 1\<rparr>"
  have rd: "\<And>t. ray_distance ?scene (Vec3 0 0 0) (Vec3 0 0 (- 1)) t = 60"
    by (simp add: ray_distance_def)
  have ts: "raymarch_samples ?scene (Vec3 0 0 0) (Vec3 0 0 (- 1)) = [0, 60]"
    by (simp add: raymarch_samples_def raymarch_loop_step raymarch_loop_far rd)
  show ?thesis
    using raymarch_miss [of ?scene "Vec3 0 0 0" "Vec3 0 0 (- 1)"] ts rd by (simp add: no_hit_def)
qed

subsection \<open>The soft-shadow loop\<close>

lemma shadow_loop_done:
  "\<not> step < 64 \<Longrightarrow> shadow_loop scene origin dir max_dist step cur_dist soft = (soft, [])"
  by (subst shadow_loop.simps) simp

lemma shadow_loop_reached:
  "cur_dist \<ge> max_dist \<Longrightarrow> shadow_loop scene origin dir max_dist step cur_dist soft = (soft, [])"
  by (subst shadow_loop.simps) simp

lemma shadow_loop_occluded:
  "step < 64 \<Longrightarrow> \<not> cur_dist \<ge> max_dist \<Longrightarrow> ray_distance scene origin dir cur_dist < 0.001 \<Longrightarrow>
   shadow_loop scene origin dir max_dist step cur_dist soft = (0, [cur_dist])"
  by (subst shadow_loop.simps) (simp add: ray_distance_def Let_def)

lemma shadow_loop_step:
  "step < 64 \<Longrightarrow> \<not> cur_dist \<ge> max_dist \<Longrightarrow> \<not> ray_distance scene origin dir cur_dist < 0.001 \<Longrightarrow>
   shadow_loop scene origin dir max_dist step cur_dist soft =
     (fst (shadow_loop scene origin dir max_dist (Suc step)
             (cur_dist + ray_distance scene origin dir cur_dist)
             (min soft (penumbra scene origin dir cur_dist))),
      cur_dist # snd (shadow_loop scene origin dir max_dist (Suc step)
             (cur_dist + ray_distance scene origin dir cur_dist)
             (min soft (penumbra scene origin dir cur_dist))))"
  by (subst shadow_loop.simps)
     (simp add: ray_distance_def penumbra_def Let_def split: prod.splits)

lemmas shadow_loop_cases =
  shadow_loop_done shadow_loop_reached shadow_loop_occluded shadow_loop_step

lemma shadow_cases [case_names finished reached occluded advance]:
  assumes "\<not> step < 64 \<Longrightarrow> P"
    and "step < 64 \<Longrightarrow> cur_dist \<ge> max_dist \<Longrightarrow> P"
    and "step < 64 \<Longrightarrow> \<not> cur_dist \<ge> max_dist \<Longrightarrow> ray_distance scene origin dir cur_dist < 0.001 \<Longrightarrow> P"
    and "step < 64 \<Longrightarrow> \<not> cur_dist \<ge> max_dist \<Longrightarrow> \<not> ray_distance scene origin dir cur_dist < 0.001 \<Longrightarrow> P"
  shows P
  using assms by blast

lemma penumbra_pos:
  "\<not> ray_distance scene origin dir t < 0.001 \<Longrightarrow> 0 < penumbra scene origin dir t"
  by (simp add: penumbra_def max_def)

lemma Min_insert_min:
  assumes "finite S"
  shows "Min (insert (min a b) S) = min a (Min (insert b S))"
proof (cases "S = {}")
  case True
  then show ?thesis by simp
next
  case False
  with assms show ?thesis by (simp add: min.assoc)
qed

lemma shadow_loop_value:
  "fst (shadow_loop scene origin dir max_dist step cur_dist soft) =
     (if \<exists>t\<in>set (snd (shadow_loop scene origin dir max_dist step cur_dist soft)).
           ray_distance scene origin dir t < 0.001
      then 0
      else Min (insert soft (penumbra scene origin dir `
                  set (snd (shadow_loop scene origin dir max_dist step cur_dist soft)))))"
proof (induction "64 - step" arbitrary: step cur_dist soft)
  case 0
  then show ?case by (simp add: shadow_loop_done)
next
  case (Suc n)
  then have n: "n = 64 - Suc step" by simp
  show ?case
  proof (cases rule: shadow_cases [where step = step and cur_dist = cur_dist and max_dist = max_dist
      and scene = scene and origin = origin and dir = dir])
    case finished
    then show ?thesis by (simp add: shadow_loop_done)
  next
    case reached
    then show ?thesis by (simp add: shadow_loop_reached)
  next
    case occluded
    then show ?thesis by (simp add: shadow_loop_occluded)
  next
    case advance
    show ?thesis
      unfolding shadow_loop_step [OF advance] fst_conv snd_conv
      using Suc.hyps(1) [OF n, of "cur_dist + ray_distance scene origin dir cur_dist"
                               "min soft (penumbra scene origin dir cur_dist)"] advance(3)
      by (simp add: Min_insert_min)
  qed
qed

lemma shadow_loop_length:
  "length (snd (shadow_loop scene origin dir max_dist step cur_dist soft)) \<le> 64 - step"
proof (induction "64 - step" arbitrary: step cur_dist soft)
  case 0
  then show ?case by (simp add: shadow_loop_done)
next
  case (Suc n)
  then have n: "n = 64 - Suc step" by simp
  show ?case
  proof (cases rule: shadow_cases [where step = step and cur_dist = cur_dist and max_dist = max_dist
      and scene = scene and origin = origin and dir = dir])
    case finished
    then show ?thesis by (simp add: shadow_loop_done)
  next
    case reached
    then show ?thesis by (simp add: shadow_loop_reached)
  next
    case occluded
    then show ?thesis by (simp add: shadow_loop_occluded)
  next
    case advance
    show ?thesis
      unfolding shadow_loop_step [OF advance] snd_conv
      using Suc.hyps(1) [OF n, of "cur_dist + ray_distance scene origin dir cur_dist"
                               "min soft (penumbra scene origin dir cur_dist)"] advance(1)
      by simp
  qed
qed

lemma shadow_loop_before_max:
  "\<forall>t\<in>set (snd (shadow_loop scene origin dir max_dist step cur_dist soft)). t < max_dist"
proof (induction "64 - step" arbitrary: step cur_dist soft)
  case 0
  then show ?case by (simp add: shadow_loop_done)
next
  case (Suc n)
  then have n: "n = 64 - Suc step" by simp
  show ?case
  proof (cases rule: shadow_cases [where step = step and cur_dist = cur_dist and max_dist = max_dist
      and scene = scene and origin = origin and dir = dir])
    case finished
    then show ?thesis by (simp add: shadow_loop_done)
  next
    case reached
    then show ?thesis by (simp add: shadow_loop_reached)
  next
    case occluded
    then show ?thesis by (simp add: shadow_loop_occluded)
  next
    case advance
    show ?thesis
      unfolding shadow_loop_step [OF advance] snd_conv
      using Suc.hyps(1) [OF n, of "cur_dist + ray_distance scene origin dir cur_dist"
                               "min soft (penumbra scene origin dir cur_dist)"] advance(2)
      by simp
  qed
qed

lemma shadow_loop_head:
  "snd (shadow_loop scene origin dir max_dist step cur_dist soft) \<noteq> [] \<Longrightarrow>
   hd (snd (shadow_loop scene origin dir max_dist step cur_dist soft)) = cur_dist"
  by (cases rule: shadow_cases [where step = step and cur_dist = cur_dist and max_dist = max_dist
      and scene = scene and origin = origin and dir = dir])
     (simp_all add: shadow_loop_cases)

lemma shadow_loop_advance:
  "Suc i < length (snd (shadow_loop scene origin dir max_dist step cur_dist soft)) \<Longrightarrow>
   snd (shadow_loop scene origin dir max_dist step cur_dist soft) ! Suc i
     = snd (shadow_loop scene origin dir max_dist step cur_dist soft) ! i
       + ray_distance scene origin dir
           (snd (shadow_loop scene origin dir max_dist step cur_dist soft) ! i)"
proof (induction "64 - step" arbitrary: step cur_dist soft i)
  case 0
  then show ?case by (simp add: shadow_loop_done)
next
  case (Suc n)
  then have n: "n = 64 - Suc step" by simp
  let ?next = "snd (shadow_loop scene origin dir max_dist (Suc step)
                 (cur_dist + ray_distance scene origin dir cur_dist)
                 (min soft (penumbra scene origin dir cur_dist)))"
  show ?case
  proof (cases rule: shadow_cases [where step = step and cur_dist = cur_dist and max_dist = max_dist
      and scene = scene and origin = origin and dir = dir])
    case finished
    with Suc.prems show ?thesis by (simp add: shadow_loop_done)
  next
    case reached
    with Suc.prems show ?thesis by (simp add: shadow_loop_reached)
  next
    case occluded
    with Suc.prems show ?thesis by (simp add: shadow_loop_occluded)
  next
    case advance
    have eq: "snd (shadow_loop scene origin dir max_dist step cur_dist soft) = cur_dist # ?next"
      by (simp add: shadow_loop_step [OF advance])
    show ?thesis
    proof (cases i)
      case 0
      with Suc.prems eq have "?next \<noteq> []" by auto
      then have "hd ?next = cur_dist + ray_distance scene origin dir cur_dist"
        by (rule shadow_loop_head)
      with \<open>?next \<noteq> []\<close> 0 eq show ?thesis by (simp add: hd_conv_nth)
    next
      case (Suc j)
      with Suc.prems eq have "Suc j < length ?next" by simp
      from Suc.hyps(1) [OF n this] Suc eq show ?thesis by simp
    qed
  qed
qed

lemma shadow_loop_stop:
  assumes "\<not> (\<exists>t\<in>set (snd (shadow_loop scene origin dir max_dist step cur_dist soft)).
               ray_distance scene origin dir t < 0.001)"
    and "step \<le> 64"
  shows "length (snd (shadow_loop scene origin dir max_dist step cur_dist soft)) = 64 - step
         \<or> (if snd (shadow_loop scene origin dir max_dist step cur_dist soft) = [] then cur_dist
             else last (snd (shadow_loop scene origin dir max_dist step cur_dist soft))
                + ray_distance scene origin dir
                    (last (snd (shadow_loop scene origin dir max_dist step cur_dist soft))))
            \<ge> max_dist"
  using assms
proof (induction "64 - step" arbitrary: step cur_dist soft)
  case 0
  then show ?case by (simp add: shadow_loop_done)
next
  case (Suc n)
  from Suc.hyps(2) have n: "n = 64 - Suc step" and le: "Suc step \<le> 64" by simp_all
  let ?next = "snd (shadow_loop scene origin dir max_dist (Suc step)
                 (cur_dist + ray_distance scene origin dir cur_dist)
                 (min soft (penumbra scene origin dir cur_dist)))"
  show ?case
  proof (cases rule: shadow_cases [where step = step and cur_dist = cur_dist and max_dist = max_dist
      and scene = scene and origin = origin and dir = dir])
    case finished
    with Suc.hyps(2) show ?thesis by simp
  next
    case reached
    then show ?thesis by (simp add: shadow_loop_reached)
  next
    case occluded
    from Suc.prems(1) have False
      unfolding shadow_loop_occluded [OF occluded] snd_conv using occluded(3) by simp
    then show ?thesis ..
  next
    case advance
    have eq: "snd (shadow_loop scene origin dir max_dist step cur_dist soft) = cur_dist # ?next"
      by (simp add: shadow_loop_step [OF advance])
    with Suc.prems
    have "\<not> (\<exists>t\<in>set ?next. ray_distance scene origin dir t < 0.001)" by simp
    from Suc.hyps(1) [OF n this le]
    have IH: "length ?next = 64 - Suc step
              \<or> (if ?next = [] then cur_dist + ray_distance scene origin dir cur_dist
                  else last ?next + ray_distance scene origin dir (last ?next)) \<ge> max_dist" .
    have len: "length (cur_dist # ?next) = 64 - step" if "length ?next = 64 - Suc step"
      using that advance(1) by simp
    show ?thesis
    proof (cases "?next = []")
      case True
      with IH len show ?thesis unfolding eq by auto
    next
      case False
      with IH len show ?thesis unfolding eq by auto
    qed
  qed
qed

lemma shadow_loop_range:
  assumes "0 < soft" and "soft \<le> 1"
  shows "0 \<le> fst (shadow_loop scene origin dir max_dist step cur_dist soft)"
    and "fst (shadow_loop scene origin dir max_dist step cur_dist soft) \<le> 1"
    and "fst (shadow_loop scene origin dir max_dist step cur_dist soft) = 0 \<longleftrightarrow>
         (\<exists>t\<in>set (snd (shadow_loop scene origin dir max_dist step cur_dist soft)).
             ray_distance scene origin dir t < 0.001)"
proof -
  let ?ts = "snd (shadow_loop scene origin dir max_dist step cur_dist soft)"
  let ?S = "insert soft (penumbra scene origin dir ` set ?ts)"
  have fin: "finite ?S" and ne: "?S \<noteq> {}" by simp_all
  have pos: "0 < Min ?S" if "\<not> (\<exists>t\<in>set ?ts. ray_distance scene origin dir t < 0.001)"
  proof -
    have "\<forall>v\<in>?S. 0 < v" using assms(1) that by (auto intro: penumbra_pos)
    moreover have "Min ?S \<in> ?S" using fin ne by (rule Min_in)
    ultimately show ?thesis by blast
  qed
  have le: "Min ?S \<le> 1"
  proof -
    have "Min ?S \<le> soft" using fin by (rule Min_le) simp
    also note assms(2)
    finally show ?thesis .
  qed
  have val: "fst (shadow_loop scene origin dir max_dist step cur_dist soft) =
       (if \<exists>t\<in>set ?ts. ray_distance scene origin dir t < 0.001 then 0 else Min ?S)"
    by (rule shadow_loop_value)
  show "0 \<le> fst (shadow_loop scene origin dir max_dist step cur_dist soft)"
  proof (cases "\<exists>t\<in>set ?ts. ray_distance scene origin dir t < 0.001")
    case True
    then show ?thesis unfolding val by simp
  next
    case False
    from pos [OF False] show ?thesis by (simp only: val False if_False)
  qed
  show "fst (shadow_loop scene origin dir max_dist step cur_dist soft) \<le> 1"
  proof (cases "\<exists>t\<in>set ?ts. ray_distance scene origin dir t < 0.001")
    case True
    then show ?thesis unfolding val by simp
  next
    case False
    from le show ?thesis by (simp only: val False if_False)
  qed
  show "fst (shadow_loop scene origin dir max_dist step cur_dist soft) = 0 \<longleftrightarrow>
         (\<exists>t\<in>set ?ts. ray_distance scene origin dir t < 0.001)"
  proof (cases "\<exists>t\<in>set ?ts. ray_distance scene origin dir t < 0.001")
    case True
    then show ?thesis unfolding val by simp
  next
    case False
    from pos [OF False] have "Min ?S \<noteq> 0" by (rule less_imp_neq [THEN not_sym])
    with False show ?thesis by (simp only: val if_False)
  qed
qed

text \<open>
  C4: for every shadow query the result lies in \<open>[0,1]\<close>. It is exactly 0 if and only if
  some sample the loop takes (each at a travelled distance below \<open>max_dist\<close>, within the
  64-step budget) reads a scene distance below \<open>0.001\<close>; otherwise it is the minimum of 1
  and of \<open>32 * d / max(travelled, 0.001)\<close> over the samples taken, and the loop has stopped
  because the travelled distance reached \<open>max_dist\<close> or after 64 steps.
\<close>

theorem shadow_ray_value:
  fixes scene origin dir max_dist
  defines "ts \<equiv> shadow_samples scene origin dir max_dist"
    and "r \<equiv> shadow_ray scene origin dir max_dist"
  shows "0 \<le> r \<and> r \<le> 1
         \<and> (r = 0 \<longleftrightarrow> (\<exists>t\<in>set ts. ray_distance scene origin dir t < 0.001))
         \<and> r = (if \<exists>t\<in>set ts. ray_distance scene origin dir t < 0.001 then 0
                else Min (insert 1 ((\<lambda>t. 32 * ray_distance scene origin dir t / max t 0.001) ` set ts)))
         \<and> length ts \<le> 64
         \<and> (\<forall>t\<in>set ts. t < max_dist)
         \<and> (ts \<noteq> [] \<longrightarrow> hd ts = 0)
         \<and> (\<forall>i. Suc i < length ts \<longrightarrow> ts ! Suc i = ts ! i + ray_distance scene origin dir (ts ! i))
         \<and> ((\<exists>t\<in>set ts. ray_distance scene origin dir t < 0.001)
            \<or> length ts = 64
            \<or> (if ts = [] then 0 else last ts + ray_distance scene origin dir (last ts)) \<ge> max_dist)"
proof -
  have range: "0 \<le> r" "r \<le> 1"
    "r = 0 \<longleftrightarrow> (\<exists>t\<in>set ts. ray_distance scene origin dir t < 0.001)"
    unfolding r_def ts_def shadow_ray_def shadow_samples_def
    by (rule shadow_loop_range; simp)+
  have pen: "penumbra scene origin dir = (\<lambda>t. 32 * ray_distance scene origin dir t / max t 0.001)"
    by (rule ext) (simp add: penumbra_def)
  have val: "r = (if \<exists>t\<in>set ts. ray_distance scene origin dir t < 0.001 then 0
                else Min (insert 1 ((\<lambda>t. 32 * ray_distance scene origin dir t / max t 0.001) ` set ts)))"
    unfolding r_def ts_def shadow_ray_def shadow_samples_def pen [symmetric]
    by (rule shadow_loop_value)
  have len: "length ts \<le> 64"
    using shadow_loop_length [of scene origin dir max_dist 0 0 1]
    by (simp add: ts_def shadow_samples_def)
  have before: "\<forall>t\<in>set ts. t < max_dist"
    unfolding ts_def shadow_samples_def by (rule shadow_loop_before_max)
  have hd: "ts \<noteq> [] \<longrightarrow> hd ts = 0"
    unfolding ts_def shadow_samples_def by (intro impI shadow_loop_head)
  have adv: "\<forall>i. Suc i < length ts \<longrightarrow> ts ! Suc i = ts ! i + ray_distance scene origin dir (ts ! i)"
    unfolding ts_def shadow_samples_def by (intro allI impI shadow_loop_advance)
  have stop: "(\<exists>t\<in>set ts. ray_distance scene origin dir t < 0.001)
            \<or> length ts = 64
            \<or> (if ts = [] then 0 else last ts + ray_distance scene origin dir (last ts)) \<ge> max_dist"
    using shadow_loop_stop [of scene origin dir max_dist 0 0 1]
    unfolding ts_def shadow_samples_def by (cases "\<exists>t\<in>set (snd (shadow_loop scene origin dir max_dist 0 0 1)). ray_distance scene origin dir t < 0.001") simp_all
  from range val len before hd adv stop show ?thesis by (intro conjI)
qed

theorem shadow_ray_value_witness:
  "shadow_samples (\<lambda>p. \<lparr>d = (if vz p < 1 then 2 else 1 / 64), color = Vec3 1 1 1\<rparr>)
      (Vec3 0 0 0) (Vec3 0 0 1) (201 / 100) = [0, 2]
   \<and> shadow_ray (\<lambda>p. \<lparr>d = (if vz p < 1 then 2 else 1 / 64), color = Vec3 1 1 1\<rparr>)
      (Vec3 0 0 0) (Vec3 0 0 1) (201 / 100) = 1 / 4
   \<and> shadow_samples (\<lambda>p. \<lparr>d = 0, color = Vec3 1 1 1\<rparr>) (Vec3 0 0 0) (Vec3 0 0 1) 5 = [0]
   \<and> shadow_ray (\<lambda>p. \<lparr>d = 0, color = Vec3 1 1 1\<rparr>) (Vec3 0 0 0) (Vec3 0 0 1) 5 = 0"
proof -
  let ?scene = "\<lambda>p. \<lparr>d = (if vz p < 1 then 2 else 1 / 64), color = Vec3 1 1 1\<rparr>"
  let ?wall = "\<lambda>p::vec3. \<lparr>d = 0, color = Vec3 1 1 1\<rparr>"
  have rd: "\<And>t. ray_distance ?scene (Vec3 0 0 0) (Vec3 0 0 1) t = (if t < 1 then 2 else 1 / 64)"
    by (simp add: ray_distance_def vadd_def smul_def)
  have rw: "\<And>t. ray_distance ?wall (Vec3 0 0 0) (Vec3 0 0 1) t = 0"
    by (simp add: ray_distance_def)
  have ts: "shadow_samples ?scene (Vec3 0 0 0) (Vec3 0 0 1) (201 / 100) = [0, 2]"
    by (simp add: shadow_samples_def shadow_loop_step shadow_loop_reached rd)
  have tw: "shadow_samples ?wall (Vec3 0 0 0) (Vec3 0 0 1) 5 = [0]"
    by (simp add: shadow_samples_def shadow_loop_occluded rw)
  show ?thesis
    using shadow_ray_value [of ?scene "Vec3 0 0 0" "Vec3 0 0 1" "201 / 100"]
          shadow_ray_value [of ?wall "Vec3 0 0 0" "Vec3 0 0 1" 5] ts tw
    by (simp add: rd rw)
qed

section \<open>Properties of the renderers\<close>

subsection \<open>Object names, compiling and linking\<close>

lemma fold_max_ge: "a \<le> fold max xs (a::nat)" "x \<in> set xs \<Longrightarrow> x \<le> fold max xs a"
  by (induction xs arbitrary: a) (auto intro: order_trans [OF max.cobounded2] order_trans [OF max.cobounded1])

lemma fresh_name_notin: "fresh_name used \<notin> set used"
proof
  assume "fresh_name used \<in> set used"
  then have "fresh_name used \<le> fold max used 0" by (rule fold_max_ge)
  then show False by (simp add: fresh_name_def)
qed

lemma fresh_name_nonzero: "fresh_name used \<noteq> 0"
  by (simp add: fresh_name_def)

lemma filter_absent_name: "n \<notin> fst ` set xs \<Longrightarrow> filter (\<lambda>(m, s). m \<noteq> n) xs = xs"
  by (induction xs) auto

lemma map_absent_name:
  "n \<notin> fst ` set xs \<Longrightarrow> map (\<lambda>(m, s). if m = n then (m, v) else (m, s)) xs = xs"
  by (induction xs) auto

lemma filter_absent: "n \<notin> set xs \<Longrightarrow> filter (\<lambda>m. m \<noteq> n) xs = xs"
  by (induction xs) auto

lemma fresh_not_shader: "fresh_name (map fst (shaders g) @ programs g) \<notin> fst ` set (shaders g)"
  using fresh_name_notin [of "map fst (shaders g) @ programs g"] by simp

lemma fresh_not_program: "fresh_name (map fst (shaders g) @ programs g) \<notin> set (programs g)"
  using fresh_name_notin [of "map fst (shaders g) @ programs g"] by simp

lemma compile_shader_eq:
  "compile_shader env g type path =
     (case compiled_source env type path of
        None \<Rightarrow> (0, g)
      | Some src \<Rightarrow>
          (fresh_name (map fst (shaders g) @ programs g),
           g\<lparr>shaders := (fresh_name (map fst (shaders g) @ programs g), src) # shaders g\<rparr>))"
proof (cases "files env path")
  case None
  then show ?thesis by (simp add: compile_shader_def load_file_def compiled_source_def)
next
  case (Some src)
  let ?n = "fresh_name (map fst (shaders g) @ programs g)"
  show ?thesis
  proof (cases "src \<noteq> [] \<and> malloc_ok env path")
    case False
    with Some show ?thesis
      by (auto simp: compile_shader_def load_file_def compiled_source_def)
  next
    case True
    with Some have load: "load_file env g path = (Some src, host_alloc g)"
      by (simp add: load_file_def)
    have made: "host_free (glShaderSource (snd (glCreateShader (host_alloc g))) ?n src)
                = g\<lparr>shaders := (?n, src) # shaders g\<rparr>"
      using map_absent_name [OF fresh_not_shader, of g src]
      by (simp add: glCreateShader_def glShaderSource_def host_alloc_def host_free_def Let_def)
    have name: "fst (glCreateShader (host_alloc g)) = ?n"
      by (simp add: glCreateShader_def host_alloc_def Let_def)
    have del: "glDeleteShader (g\<lparr>shaders := (?n, src) # shaders g\<rparr>) ?n = g"
      using filter_absent_name [OF fresh_not_shader, of g]
      by (simp add: glDeleteShader_def)
    show ?thesis
      using Some True
      by (simp add: compile_shader_def load compiled_source_def split_beta Let_def made name del)
  qed
qed

lemma link_program_eq:
  "link_program env g vert frag =
     (if link_status env [shader_source g vert, shader_source g frag]
      then (fresh_name (map fst (shaders g) @ programs g),
            g\<lparr>shaders := filter (\<lambda>(n, s). n \<noteq> frag) (filter (\<lambda>(n, s). n \<noteq> vert) (shaders g)),
              programs := fresh_name (map fst (shaders g) @ programs g) # programs g\<rparr>)
      else (0, g\<lparr>shaders := filter (\<lambda>(n, s). n \<noteq> frag) (filter (\<lambda>(n, s). n \<noteq> vert) (shaders g))\<rparr>))"
  using filter_absent [OF fresh_not_program, of g]
  by (simp add: link_program_def glCreateProgram_def glDeleteShader_def glDeleteProgram_def
      shader_source_def Let_def)

lemma link_compute_program_eq:
  "link_compute_program env g comp_shader =
     (if link_status env [shader_source g comp_shader]
      then (fresh_name (map fst (shaders g) @ programs g),
            g\<lparr>shaders := filter (\<lambda>(n, s). n \<noteq> comp_shader) (shaders g),
              programs := fresh_name (map fst (shaders g) @ programs g) # programs g\<rparr>)
      else (0, g\<lparr>shaders := filter (\<lambda>(n, s). n \<noteq> comp_shader) (shaders g)\<rparr>))"
  using filter_absent [OF fresh_not_program, of g]
  by (simp add: link_compute_program_def glCreateProgram_def glDeleteShader_def glDeleteProgram_def
      shader_source_def Let_def)

text \<open>Compiling one shader, then linking it alone.\<close>

lemma compile_link_compute:
  assumes "compiled_source env type path = Some src"
  shows "(case compile_shader env g type path of (comp_shader, g1) \<Rightarrow> link_compute_program env g1 comp_shader)
         = (if link_status env [src]
            then (fresh_name (fresh_name (map fst (shaders g) @ programs g) # map fst (shaders g) @ programs g),
                  g\<lparr>programs := fresh_name (fresh_name (map fst (shaders g) @ programs g)
                                    # map fst (shaders g) @ programs g) # programs g\<rparr>)
            else (0, g))"
  using filter_absent_name [OF fresh_not_shader, of g]
  by (simp add: compile_shader_eq assms link_compute_program_eq shader_source_def)

text \<open>Compiling two shaders, then linking them.\<close>

lemma compile_link_pair:
  assumes "compiled_source env tv pv = Some sv" and "compiled_source env tf pf = Some sf"
  shows "(case compile_shader env g tv pv of (vert, g1) \<Rightarrow>
            case compile_shader env g1 tf pf of (frag, g2) \<Rightarrow> link_program env g2 vert frag)
         = (let v = fresh_name (map fst (shaders g) @ programs g);
                f = fresh_name (v # map fst (shaders g) @ programs g);
                p = fresh_name (f # v # map fst (shaders g) @ programs g)
            in if link_status env [sv, sf] then (p, g\<lparr>programs := p # programs g\<rparr>) else (0, g))"
proof -
  let ?N = "map fst (shaders g) @ programs g"
  let ?v = "fresh_name ?N"
  let ?f = "fresh_name (?v # ?N)"
  have fv: "?f \<noteq> ?v" using fresh_name_notin [of "?v # ?N"] by simp
  have f_sh: "?f \<notin> fst ` set (shaders g)" using fresh_name_notin [of "?v # ?N"] by simp
  have "filter (\<lambda>(n, s). n \<noteq> ?f) (filter (\<lambda>(n, s). n \<noteq> ?v) ((?f, sf) # (?v, sv) # shaders g))
          = shaders g"
    using fv filter_absent_name [OF fresh_not_shader, of g] filter_absent_name [OF f_sh]
    by simp
  then show ?thesis
    using fv by (simp add: compile_shader_eq assms link_program_eq shader_source_def Let_def)
qed

lemma pair_program_name_new:
  "pair_program_name g \<noteq> 0" "pair_program_name g \<notin> set (programs g)"
  using fresh_name_notin [of "fresh_name (fresh_name (map fst (shaders g) @ programs g)
            # map fst (shaders g) @ programs g)
          # fresh_name (map fst (shaders g) @ programs g) # map fst (shaders g) @ programs g"]
  by (simp_all add: pair_program_name_def Let_def fresh_name_nonzero)

lemma single_program_name_new:
  "single_program_name g \<noteq> 0" "single_program_name g \<notin> set (programs g)"
  using fresh_name_notin [of "fresh_name (map fst (shaders g) @ programs g)
          # map fst (shaders g) @ programs g"]
  by (simp_all add: single_program_name_def fresh_name_nonzero)

lemma compile_pair_programs:
  "programs (snd (compile_shader env (snd (compile_shader env g tv pv)) tf pf)) = programs g"
  by (simp add: compile_shader_eq split: option.splits)

lemma build_pair:
  "(case compile_shader env g tv pv of (vert, g1) \<Rightarrow>
      case compile_shader env g1 tf pf of (frag, g2) \<Rightarrow>
        if vert = 0 \<or> frag = 0 then (0, g2) else link_program env g2 vert frag)
   = (case compiled_source env tv pv of
        None \<Rightarrow> (0, snd (compile_shader env g tf pf))
      | Some sv \<Rightarrow>
          (case compiled_source env tf pf of
             None \<Rightarrow> (0, g\<lparr>shaders := (fresh_name (map fst (shaders g) @ programs g), sv) # shaders g\<rparr>)
           | Some sf \<Rightarrow>
               if link_status env [sv, sf]
               then (pair_program_name g, g\<lparr>programs := pair_program_name g # programs g\<rparr>)
               else (0, g)))"
proof (cases "compiled_source env tv pv")
  case None
  then show ?thesis by (simp add: compile_shader_eq split: option.splits)
next
  case sv: (Some sv)
  show ?thesis
  proof (cases "compiled_source env tf pf")
    case None
    with sv show ?thesis by (simp add: compile_shader_eq)
  next
    case sf: (Some sf)
    have nz: "fresh_name (map fst (shaders g) @ programs g) \<noteq> 0"
      "fresh_name (fresh_name (map fst (shaders g) @ programs g) # map fst (shaders g) @ programs g) \<noteq> 0"
      by (rule fresh_name_nonzero)+
    have "(case compile_shader env g tv pv of (vert, g1) \<Rightarrow>
            case compile_shader env g1 tf pf of (frag, g2) \<Rightarrow>
              if vert = 0 \<or> frag = 0 then (0, g2) else link_program env g2 vert frag)
          = (case compile_shader env g tv pv of (vert, g1) \<Rightarrow>
              case compile_shader env g1 tf pf of (frag, g2) \<Rightarrow> link_program env g2 vert frag)"
      using nz by (simp add: compile_shader_eq sv sf)
    also note compile_link_pair [OF sv sf]
    finally show ?thesis
      by (simp add: sv sf pair_program_name_def Let_def)
  qed
qed

subsection \<open>Reloading shaders\<close>

lemma reload_direct_unfold:
  assumes "ok r"
  shows "gl_renderer_reload_shaders env g (Some r) =
     (case (case compile_shader env g GL_VERTEX_SHADER ''shaders/raymarch.vert'' of (vert, g1) \<Rightarrow>
              case compile_shader env g1 GL_FRAGMENT_SHADER ''shaders/raymarch.frag'' of (frag, g2) \<Rightarrow>
                if vert = 0 \<or> frag = 0 then (0, g2) else link_program env g2 vert frag) of
        (new_prog, g3) \<Rightarrow>
          if new_prog = 0 then (False, Some r, g3)
          else (True, Some (r\<lparr>program := new_prog\<rparr>), glDeleteProgram g3 (program r)))"
  using assms
  by (simp add: gl_renderer_reload_shaders_def split_beta Let_def)

lemma reload_direct_ok:
  assumes "ok r" and "direct_build_ok env"
  shows "gl_renderer_reload_shaders env g (Some r) =
           (True, Some (r\<lparr>program := pair_program_name g\<rparr>),
            g\<lparr>programs := filter (\<lambda>n. n \<noteq> program r) (pair_program_name g # programs g)\<rparr>)"
  unfolding reload_direct_unfold [OF assms(1)] build_pair
  using assms(2) pair_program_name_new(1) [of g]
  by (auto simp: direct_build_ok_def glDeleteProgram_def split: option.splits)

lemma reload_direct_fail:
  assumes "ok r" and "\<not> direct_build_ok env"
  shows "fst (gl_renderer_reload_shaders env g (Some r)) = False"
    and "fst (snd (gl_renderer_reload_shaders env g (Some r))) = Some r"
    and "programs (snd (snd (gl_renderer_reload_shaders env g (Some r)))) = programs g"
  unfolding reload_direct_unfold [OF assms(1)] build_pair
  using assms(2)
  by (auto simp: direct_build_ok_def compile_shader_eq split: option.splits)

lemma build_single:
  "(case compile_shader env g type path of (comp_shader, g1) \<Rightarrow>
      if comp_shader = 0 then (0, g1) else link_compute_program env g1 comp_shader)
   = (case compiled_source env type path of
        None \<Rightarrow> (0, g)
      | Some sc \<Rightarrow>
          if link_status env [sc]
          then (single_program_name g, g\<lparr>programs := single_program_name g # programs g\<rparr>)
          else (0, g))"
proof (cases "compiled_source env type path")
  case None
  then show ?thesis by (simp add: compile_shader_eq)
next
  case (Some sc)
  have "(case compile_shader env g type path of (comp_shader, g1) \<Rightarrow>
           if comp_shader = 0 then (0, g1) else link_compute_program env g1 comp_shader)
        = (case compile_shader env g type path of (comp_shader, g1) \<Rightarrow>
             link_compute_program env g1 comp_shader)"
    using fresh_name_nonzero [of "map fst (shaders g) @ programs g"]
    by (simp add: compile_shader_eq Some)
  also note compile_link_compute [OF Some]
  finally show ?thesis by (simp add: Some single_program_name_def)
qed

lemma reload_compute_unfold:
  assumes "ok_c r"
  shows "gl_renderer_reload_shaders_c env g (Some r) =
     (case (case compile_shader env g GL_COMPUTE_SHADER ''shaders/raymarch.comp'' of
              (comp_shader, g1) \<Rightarrow>
                if comp_shader = 0 then (0, g1) else link_compute_program env g1 comp_shader) of
        (new_comp, g2) \<Rightarrow>
          if new_comp = 0 then (False, Some r, g2)
          else
            (case (case compile_shader env g2 GL_VERTEX_SHADER ''shaders/display.vert'' of
                     (vert, g3) \<Rightarrow>
                       case compile_shader env g3 GL_FRAGMENT_SHADER ''shaders/display.frag'' of
                         (frag, g4) \<Rightarrow>
                           if vert = 0 \<or> frag = 0 then (0, g4)
                           else link_program env g4 vert frag) of
               (new_disp, g5) \<Rightarrow>
                 if new_disp = 0 then (False, Some r, glDeleteProgram g5 new_comp)
                 else (True, Some (r\<lparr>compute_program := new_comp, display_program := new_disp\<rparr>),
                       glDeleteProgram (glDeleteProgram g5 (compute_program r))
                         (display_program r))))"
  using assms
  by (simp add: gl_renderer_reload_shaders_c_def split_beta Let_def)

lemma reload_compute_ok:
  assumes "ok_c r" and "compute_build_ok env"
  shows "gl_renderer_reload_shaders_c env g (Some r) =
           (True,
            Some (r\<lparr>compute_program := single_program_name g,
                    display_program :=
                      pair_program_name (g\<lparr>programs := single_program_name g # programs g\<rparr>)\<rparr>),
            g\<lparr>programs :=
                filter (\<lambda>n. n \<noteq> display_program r)
                  (filter (\<lambda>n. n \<noteq> compute_program r)
                     (pair_program_name (g\<lparr>programs := single_program_name g # programs g\<rparr>)
                      # single_program_name g # programs g))\<rparr>)"
  unfolding reload_compute_unfold [OF assms(1)] build_single build_pair
  using assms(2) single_program_name_new(1) [of g]
    pair_program_name_new(1) [of "g\<lparr>programs := single_program_name g # programs g\<rparr>"]
  by (auto simp: compute_build_ok_def glDeleteProgram_def split: option.splits)

lemma reload_compute_fail:
  assumes "ok_c r" and "\<not> compute_build_ok env"
  shows "fst (gl_renderer_reload_shaders_c env g (Some r)) = False"
    and "fst (snd (gl_renderer_reload_shaders_c env g (Some r))) = Some r"
    and "programs (snd (snd (gl_renderer_reload_shaders_c env g (Some r)))) = programs g"
  unfolding reload_compute_unfold [OF assms(1)] build_single build_pair
  using assms(2) single_program_name_new [of g]
  by (auto simp: compute_build_ok_def compile_shader_eq glDeleteProgram_def filter_absent
      split: option.splits)

lemma draw_uses_program:
  "ok r \<Longrightarrow> glUseProgram (program r) \<in> set (gl_renderer_draw (Some r) t cam)"
  by (simp add: gl_renderer_draw_def)

lemma draw_c_uses_programs:
  "ok_c r \<Longrightarrow> glUseProgram (compute_program r) \<in> set (gl_renderer_draw_c (Some r) t cam)"
  "ok_c r \<Longrightarrow> glUseProgram (display_program r) \<in> set (gl_renderer_draw_c (Some r) t cam)"
  by (simp_all add: gl_renderer_draw_c_def)

lemma reload_direct_cases:
  assumes "ok r" and "program r \<in> set (programs g)"
    and "gl_renderer_reload_shaders env g (Some r) = (res, ro', g')"
  shows "res = direct_build_ok env"
    and "res \<Longrightarrow> \<exists>p. p \<noteq> 0 \<and> p \<notin> set (programs g)
                  \<and> ro' = Some (r\<lparr>program := p\<rparr>)
                  \<and> programs g' = p # filter (\<lambda>n. n \<noteq> program r) (programs g)
                  \<and> glUseProgram p \<in> set (gl_renderer_draw ro' t cam)"
    and "\<not> res \<Longrightarrow> ro' = Some r \<and> programs g' = programs g
                \<and> gl_renderer_draw ro' t cam = gl_renderer_draw (Some r) t cam
                \<and> glUseProgram (program r) \<in> set (gl_renderer_draw ro' t cam)"
proof -
  let ?p = "pair_program_name g"
  have new: "?p \<noteq> 0" "?p \<notin> set (programs g)" by (rule pair_program_name_new)+
  with assms(2) have ne: "?p \<noteq> program r" by auto
  have use: "glUseProgram ?p \<in> set (gl_renderer_draw (Some (r\<lparr>program := ?p\<rparr>)) t cam)"
    using draw_uses_program [of "r\<lparr>program := ?p\<rparr>" t cam] assms(1) by simp
  have ok_case: "res = True \<and> ro' = Some (r\<lparr>program := ?p\<rparr>)
                 \<and> programs g' = ?p # filter (\<lambda>n. n \<noteq> program r) (programs g)"
    if "direct_build_ok env"
    using assms(3) ne unfolding reload_direct_ok [OF assms(1) that] by auto
  have fail_case: "res = False \<and> ro' = Some r \<and> programs g' = programs g"
    if "\<not> direct_build_ok env"
    using reload_direct_fail [OF assms(1) that, of g] unfolding assms(3) by simp
  show res: "res = direct_build_ok env"
    using ok_case fail_case by (cases "direct_build_ok env") simp_all
  show "\<exists>p. p \<noteq> 0 \<and> p \<notin> set (programs g)
                  \<and> ro' = Some (r\<lparr>program := p\<rparr>)
                  \<and> programs g' = p # filter (\<lambda>n. n \<noteq> program r) (programs g)
                  \<and> glUseProgram p \<in> set (gl_renderer_draw ro' t cam)" if res
  proof (rule exI [of _ ?p], intro conjI)
    from that res have b: "direct_build_ok env" by simp
    show "?p \<noteq> 0" by (rule new)
    show "?p \<notin> set (programs g)" by (rule new)
    show "ro' = Some (r\<lparr>program := ?p\<rparr>)" using ok_case [OF b] by simp
    then show "glUseProgram ?p \<in> set (gl_renderer_draw ro' t cam)" using use by simp
    show "programs g' = ?p # filter (\<lambda>n. n \<noteq> program r) (programs g)"
      using ok_case [OF b] by simp
  qed
  show "ro' = Some r \<and> programs g' = programs g
                \<and> gl_renderer_draw ro' t cam = gl_renderer_draw (Some r) t cam
                \<and> glUseProgram (program r) \<in> set (gl_renderer_draw ro' t cam)" if "\<not> res"
  proof -
    from that res have "\<not> direct_build_ok env" by simp
    from fail_case [OF this] draw_uses_program [OF assms(1), of t cam] show ?thesis by simp
  qed
qed

lemma reload_compute_cases:
  assumes "ok_c rc" and "compute_program rc \<in> set (programs g)"
    and "display_program rc \<in> set (programs g)"
    and "gl_renderer_reload_shaders_c env g (Some rc) = (res, ro', g')"
  shows "res = compute_build_ok env"
    and "res \<Longrightarrow> \<exists>pc pd. pc \<noteq> 0 \<and> pd \<noteq> 0 \<and> pc \<noteq> pd
                  \<and> pc \<notin> set (programs g) \<and> pd \<notin> set (programs g)
                  \<and> ro' = Some (rc\<lparr>compute_program := pc, display_program := pd\<rparr>)
                  \<and> programs g' = pd # pc # filter (\<lambda>n. n \<noteq> compute_program rc
                                                  \<and> n \<noteq> display_program rc) (programs g)
                  \<and> glUseProgram pc \<in> set (gl_renderer_draw_c ro' t cam)
                  \<and> glUseProgram pd \<in> set (gl_renderer_draw_c ro' t cam)"
    and "\<not> res \<Longrightarrow> ro' = Some rc \<and> programs g' = programs g
                \<and> gl_renderer_draw_c ro' t cam = gl_renderer_draw_c (Some rc) t cam
                \<and> glUseProgram (compute_program rc) \<in> set (gl_renderer_draw_c ro' t cam)
                \<and> glUseProgram (display_program rc) \<in> set (gl_renderer_draw_c ro' t cam)"
proof -
  let ?pc = "single_program_name g"
  let ?g1 = "g\<lparr>programs := ?pc # programs g\<rparr>"
  let ?pd = "pair_program_name ?g1"
  let ?r' = "rc\<lparr>compute_program := ?pc, display_program := ?pd\<rparr>"
  have pc: "?pc \<noteq> 0" "?pc \<notin> set (programs g)" by (rule single_program_name_new)+
  have pd: "?pd \<noteq> 0" "?pd \<notin> set (programs ?g1)" by (rule pair_program_name_new)+
  then have pd': "?pd \<noteq> ?pc" "?pd \<notin> set (programs g)" by simp_all
  from pc pd' assms(2,3)
  have old: "?pc \<noteq> compute_program rc" "?pc \<noteq> display_program rc"
    "?pd \<noteq> compute_program rc" "?pd \<noteq> display_program rc" by auto
  have progs: "filter (\<lambda>n. n \<noteq> display_program rc)
                (filter (\<lambda>n. n \<noteq> compute_program rc) (?pd # ?pc # programs g))
               = ?pd # ?pc # filter (\<lambda>n. n \<noteq> compute_program rc \<and> n \<noteq> display_program rc)
                                (programs g)"
    using old by simp
  have use: "glUseProgram ?pc \<in> set (gl_renderer_draw_c (Some ?r') t cam)"
    "glUseProgram ?pd \<in> set (gl_renderer_draw_c (Some ?r') t cam)"
    using draw_c_uses_programs [of ?r' t cam] assms(1) by simp_all
  have ok_case: "res = True \<and> ro' = Some ?r'
                 \<and> programs g' = ?pd # ?pc # filter (\<lambda>n. n \<noteq> compute_program rc
                                                  \<and> n \<noteq> display_program rc) (programs g)"
    if "compute_build_ok env"
  proof -
    from assms(4) [unfolded reload_compute_ok [OF assms(1) that]]
    have "res = True" "ro' = Some ?r'"
      "g' = g\<lparr>programs := filter (\<lambda>n. n \<noteq> display_program rc)
                  (filter (\<lambda>n. n \<noteq> compute_program rc) (?pd # ?pc # programs g))\<rparr>"
      by simp_all
    then show ?thesis unfolding progs by simp
  qed
  have fail_case: "res = False \<and> ro' = Some rc \<and> programs g' = programs g"
    if "\<not> compute_build_ok env"
    using reload_compute_fail [OF assms(1) that, of g] unfolding assms(4) by simp
  show res: "res = compute_build_ok env"
    using ok_case fail_case by (cases "compute_build_ok env") simp_all
  show "\<exists>pc pd. pc \<noteq> 0 \<and> pd \<noteq> 0 \<and> pc \<noteq> pd
                  \<and> pc \<notin> set (programs g) \<and> pd \<notin> set (programs g)
                  \<and> ro' = Some (rc\<lparr>compute_program := pc, display_program := pd\<rparr>)
                  \<and> programs g' = pd # pc # filter (\<lambda>n. n \<noteq> compute_program rc
                                                  \<and> n \<noteq> display_program rc) (programs g)
                  \<and> glUseProgram pc \<in> set (gl_renderer_draw_c ro' t cam)
                  \<and> glUseProgram pd \<in> set (gl_renderer_draw_c ro' t cam)" if res
  proof (rule exI [of _ ?pc], rule exI [of _ ?pd], intro conjI)
    from that res have b: "compute_build_ok env" by simp
    show "?pc \<noteq> 0" by (rule pc)
    show "?pd \<noteq> 0" by (rule pd)
    show "?pc \<notin> set (programs g)" by (rule pc)
    show "?pd \<notin> set (programs g)" by (rule pd')
    show "?pc \<noteq> ?pd" using pd'(1) by (rule not_sym)
    show r': "ro' = Some ?r'" using ok_case [OF b] by simp
    show "glUseProgram ?pc \<in> set (gl_renderer_draw_c ro' t cam)"
      unfolding r' by (rule use)
    show "glUseProgram ?pd \<in> set (gl_renderer_draw_c ro' t cam)"
      unfolding r' by (rule use)
    show "programs g' = ?pd # ?pc # filter (\<lambda>n. n \<noteq> compute_program rc
                                                  \<and> n \<noteq> display_program rc) (programs g)"
      using ok_case [OF b] by simp
  qed
  show "ro' = Some rc \<and> programs g' = programs g
                \<and> gl_renderer_draw_c ro' t cam = gl_renderer_draw_c (Some rc) t cam
                \<and> glUseProgram (compute_program rc) \<in> set (gl_renderer_draw_c ro' t cam)
                \<and> glUseProgram (display_program rc) \<in> set (gl_renderer_draw_c ro' t cam)"
    if "\<not> res"
  proof -
    from that res have "\<not> compute_build_ok env" by simp
    from fail_case [OF this] draw_c_uses_programs [OF assms(1), of t cam] show ?thesis by simp
  qed
qed

text \<open>
  C1: for every Ready renderer (its \<open>ok\<close> flag is set and its programs are live program
  objects) and every state of the shader sources, \<^verbatim>\<open>gl_renderer_reload_shaders\<close> returns
  true exactly when every load, compile and link step succeeds. When a step fails, the
  renderer record and the table of live programs are what they were before the call, and
  a following draw issues the same commands and uses the old programs. When all succeed,
  the record holds the new program set (one new program in the Direct renderer, two in
  the Compute+blit renderer), the new programs are live, the old ones are deleted, and
  a following draw uses the new ones.
\<close>

theorem reload_all_or_nothing:
  assumes "ok r" and "program r \<in> set (programs g)"
    and "ok_c rc" and "compute_program rc \<in> set (programs g)"
    and "display_program rc \<in> set (programs g)"
  shows
    "(case gl_renderer_reload_shaders env g (Some r) of (res, ro', g') \<Rightarrow>
        res = direct_build_ok env
        \<and> (if res
           then \<exists>p. p \<noteq> 0 \<and> p \<notin> set (programs g)
                  \<and> ro' = Some (r\<lparr>program := p\<rparr>)
                  \<and> programs g' = p # filter (\<lambda>n. n \<noteq> program r) (programs g)
                  \<and> glUseProgram p \<in> set (gl_renderer_draw ro' t cam)
           else ro' = Some r \<and> programs g' = programs g
                \<and> gl_renderer_draw ro' t cam = gl_renderer_draw (Some r) t cam
                \<and> glUseProgram (program r) \<in> set (gl_renderer_draw ro' t cam)))
     \<and> (case gl_renderer_reload_shaders_c env g (Some rc) of (res, ro', g') \<Rightarrow>
        res = compute_build_ok env
        \<and> (if res
           then \<exists>pc pd. pc \<noteq> 0 \<and> pd \<noteq> 0 \<and> pc \<noteq> pd
                  \<and> pc \<notin> set (programs g) \<and> pd \<notin> set (programs g)
                  \<and> ro' = Some (rc\<lparr>compute_program := pc, display_program := pd\<rparr>)
                  \<and> programs g' = pd # pc # filter (\<lambda>n. n \<noteq> compute_program rc
                                                  \<and> n \<noteq> display_program rc) (programs g)
                  \<and> glUseProgram pc \<in> set (gl_renderer_draw_c ro' t cam)
                  \<and> glUseProgram pd \<in> set (gl_renderer_draw_c ro' t cam)
           else ro' = Some rc \<and> programs g' = programs g
                \<and> gl_renderer_draw_c ro' t cam = gl_renderer_draw_c (Some rc) t cam
                \<and> glUseProgram (compute_program rc) \<in> set (gl_renderer_draw_c ro' t cam)
                \<and> glUseProgram (display_program rc) \<in> set (gl_renderer_draw_c ro' t cam)))"
    (is "?direct \<and> ?compute")
proof (rule conjI)
  obtain res ro' g' where eq: "gl_renderer_reload_shaders env g (Some r) = (res, ro', g')"
    by (cases "gl_renderer_reload_shaders env g (Some r)")
  note c = reload_direct_cases(1) [OF assms(1,2) eq]
    reload_direct_cases(2) [OF assms(1,2) eq, where t = t and cam = cam]
    reload_direct_cases(3) [OF assms(1,2) eq, where t = t and cam = cam]
  show ?direct
    unfolding eq prod.case
  proof (cases res)
    case True
    from c(2) [OF True] c(1) True show "res = direct_build_ok env \<and> (if res
           then \<exists>p. p \<noteq> 0 \<and> p \<notin> set (programs g)
                  \<and> ro' = Some (r\<lparr>program := p\<rparr>)
                  \<and> programs g' = p # filter (\<lambda>n. n \<noteq> program r) (programs g)
                  \<and> glUseProgram p \<in> set (gl_renderer_draw ro' t cam)
           else ro' = Some r \<and> programs g' = programs g
                \<and> gl_renderer_draw ro' t cam = gl_renderer_draw (Some r) t cam
                \<and> glUseProgram (program r) \<in> set (gl_renderer_draw ro' t cam))"
      by auto
  next
    case False
    from c(3) [OF False] c(1) False show "res = direct_build_ok env \<and> (if res
           then \<exists>p. p \<noteq> 0 \<and> p \<notin> set (programs g)
                  \<and> ro' = Some (r\<lparr>program := p\<rparr>)
                  \<and> programs g' = p # filter (\<lambda>n. n \<noteq> program r) (programs g)
                  \<and> glUseProgram p \<in> set (gl_renderer_draw ro' t cam)
           else ro' = Some r \<and> programs g' = programs g
                \<and> gl_renderer_draw ro' t cam = gl_renderer_draw (Some r) t cam
                \<and> glUseProgram (program r) \<in> set (gl_renderer_draw ro' t cam))"
      by auto
  qed
next
  obtain res ro' g' where eq: "gl_renderer_reload_shaders_c env g (Some rc) = (res, ro', g')"
    by (cases "gl_renderer_reload_shaders_c env g (Some rc)")
  note c = reload_compute_cases(1) [OF assms(3,4,5) eq]
    reload_compute_cases(2) [OF assms(3,4,5) eq, where t = t and cam = cam]
    reload_compute_cases(3) [OF assms(3,4,5) eq, where t = t and cam = cam]
  show ?compute
    unfolding eq prod.case
  proof (cases res)
    case True
    with c(1) c(2) [OF True] show "res = compute_build_ok env \<and> (if res
           then \<exists>pc pd. pc \<noteq> 0 \<and> pd \<noteq> 0 \<and> pc \<noteq> pd
                  \<and> pc \<notin> set (programs g) \<and> pd \<notin> set (programs g)
                  \<and> ro' = Some (rc\<lparr>compute_program := pc, display_program := pd\<rparr>)
                  \<and> programs g' = pd # pc # filter (\<lambda>n. n \<noteq> compute_program rc
                                                  \<and> n \<noteq> display_program rc) (programs g)
                  \<and> glUseProgram pc \<in> set (gl_renderer_draw_c ro' t cam)
                  \<and> glUseProgram pd \<in> set (gl_renderer_draw_c ro' t cam)
           else ro' = Some rc \<and> programs g' = programs g
                \<and> gl_renderer_draw_c ro' t cam = gl_renderer_draw_c (Some rc) t cam
                \<and> glUseProgram (compute_program rc) \<in> set (gl_renderer_draw_c ro' t cam)
                \<and> glUseProgram (display_program rc) \<in> set (gl_renderer_draw_c ro' t cam))"
      by auto
  next
    case False
    with c(1) c(3) [OF False] show "res = compute_build_ok env \<and> (if res
           then \<exists>pc pd. pc \<noteq> 0 \<and> pd \<noteq> 0 \<and> pc \<noteq> pd
                  \<and> pc \<notin> set (programs g) \<and> pd \<notin> set (programs g)
                  \<and> ro' = Some (rc\<lparr>compute_program := pc, display_program := pd\<rparr>)
                  \<and> programs g' = pd # pc # filter (\<lambda>n. n \<noteq> compute_program rc
                                                  \<and> n \<noteq> display_program rc) (programs g)
                  \<and> glUseProgram pc \<in> set (gl_renderer_draw_c ro' t cam)
                  \<and> glUseProgram pd \<in> set (gl_renderer_draw_c ro' t cam)
           else ro' = Some rc \<and> programs g' = programs g
                \<and> gl_renderer_draw_c ro' t cam = gl_renderer_draw_c (Some rc) t cam
                \<and> glUseProgram (compute_program rc) \<in> set (gl_renderer_draw_c ro' t cam)
                \<and> glUseProgram (display_program rc) \<in> set (gl_renderer_draw_c ro' t cam))"
      by auto
  qed
qed

theorem reload_all_or_nothing_witness:
  "ok \<lparr>width = 1600, height = 900, program = 1, vao = 1, vbo = 1, ok = True\<rparr>
   \<and> program \<lparr>width = 1600, height = 900, program = 1, vao = 1, vbo = 1, ok = True\<rparr>
       \<in> set (programs \<lparr>shaders = [], programs = [1, 2], textures = [(1, 1600, 900)],
                         vertex_arrays = [1], buffers = [1], host_blocks = 1\<rparr>)
   \<and> gl_renderer_reload_shaders
        \<lparr>files = (\<lambda>p. None), malloc_ok = (\<lambda>p. True), calloc_ok = True, compile_status = (\<lambda>t s. True),
          link_status = (\<lambda>s. True)\<rparr>
        \<lparr>shaders = [], programs = [1, 2], textures = [(1, 1600, 900)],
          vertex_arrays = [1], buffers = [1], host_blocks = 1\<rparr>
        (Some \<lparr>width = 1600, height = 900, program = 1, vao = 1, vbo = 1, ok = True\<rparr>)
       = (False, Some \<lparr>width = 1600, height = 900, program = 1, vao = 1, vbo = 1, ok = True\<rparr>,
          \<lparr>shaders = [], programs = [1, 2], textures = [(1, 1600, 900)],
            vertex_arrays = [1], buffers = [1], host_blocks = 1\<rparr>)
   \<and> gl_renderer_reload_shaders
        \<lparr>files = (\<lambda>p. Some ''void main() {}''), malloc_ok = (\<lambda>p. True), calloc_ok = True, compile_status = (\<lambda>t s. True),
          link_status = (\<lambda>s. True)\<rparr>
        \<lparr>shaders = [], programs = [1, 2], textures = [(1, 1600, 900)],
          vertex_arrays = [1], buffers = [1], host_blocks = 1\<rparr>
        (Some \<lparr>width = 1600, height = 900, program = 1, vao = 1, vbo = 1, ok = True\<rparr>)
       = (True, Some \<lparr>width = 1600, height = 900, program = 5, vao = 1, vbo = 1, ok = True\<rparr>,
          \<lparr>shaders = [], programs = [5, 2], textures = [(1, 1600, 900)],
            vertex_arrays = [1], buffers = [1], host_blocks = 1\<rparr>)
   \<and> gl_renderer_reload_shaders_c
        \<lparr>files = (\<lambda>p. None), malloc_ok = (\<lambda>p. True), calloc_ok = True, compile_status = (\<lambda>t s. True),
          link_status = (\<lambda>s. True)\<rparr>
        \<lparr>shaders = [], programs = [1, 2], textures = [(1, 1600, 900)],
          vertex_arrays = [1], buffers = [1], host_blocks = 1\<rparr>
        (Some \<lparr>width_c = 1600, height_c = 900, compute_program = 1, display_program = 2,
                output_texture = 1, vao_c = 1, vbo_c = 1, ok_c = True\<rparr>)
       = (False,
          Some \<lparr>width_c = 1600, height_c = 900, compute_program = 1, display_program = 2,
                output_texture = 1, vao_c = 1, vbo_c = 1, ok_c = True\<rparr>,
          \<lparr>shaders = [], programs = [1, 2], textures = [(1, 1600, 900)],
            vertex_arrays = [1], buffers = [1], host_blocks = 1\<rparr>)
   \<and> gl_renderer_reload_shaders_c
        \<lparr>files = (\<lambda>p. Some ''void main() {}''), malloc_ok = (\<lambda>p. True), calloc_ok = True, compile_status = (\<lambda>t s. True),
          link_status = (\<lambda>s. True)\<rparr>
        \<lparr>shaders = [], programs = [1, 2], textures = [(1, 1600, 900)],
          vertex_arrays = [1], buffers = [1], host_blocks = 1\<rparr>
        (Some \<lparr>width_c = 1600, height_c = 900, compute_program = 1, display_program = 2,
                output_texture = 1, vao_c = 1, vbo_c = 1, ok_c = True\<rparr>)
       = (True,
          Some \<lparr>width_c = 1600, height_c = 900, compute_program = 4, display_program = 7,
                output_texture = 1, vao_c = 1, vbo_c = 1, ok_c = True\<rparr>,
          \<lparr>shaders = [], programs = [7, 4], textures = [(1, 1600, 900)],
            vertex_arrays = [1], buffers = [1], host_blocks = 1\<rparr>)"
proof -
  let ?g = "\<lparr>shaders = [], programs = [1, 2], textures = [(1, 1600, 900)],
             vertex_arrays = [1], buffers = [1], host_blocks = 1\<rparr>"
  let ?r = "\<lparr>width = 1600, height = 900, program = 1, vao = 1, vbo = 1, ok = True\<rparr>"
  let ?rc = "\<lparr>width_c = 1600, height_c = 900, compute_program = 1, display_program = 2,
               output_texture = 1, vao_c = 1, vbo_c = 1, ok_c = True\<rparr>"
  let ?bad = "\<lparr>files = (\<lambda>p. None), malloc_ok = (\<lambda>p. True), calloc_ok = True, compile_status = (\<lambda>t s. True),
                link_status = (\<lambda>s. True)\<rparr>"
  let ?good = "\<lparr>files = (\<lambda>p. Some ''void main() {}''), malloc_ok = (\<lambda>p. True), calloc_ok = True,
                 compile_status = (\<lambda>t s. True), link_status = (\<lambda>s. True)\<rparr>"
  have bad: "\<not> direct_build_ok ?bad" "\<not> compute_build_ok ?bad"
    by (simp_all add: direct_build_ok_def compute_build_ok_def compiled_source_def)
  have good: "direct_build_ok ?good" "compute_build_ok ?good"
    by (simp_all add: direct_build_ok_def compute_build_ok_def compiled_source_def)
  have load: "\<And>g t p. compile_shader ?bad g t p = (0, g)"
    by (simp add: compile_shader_def load_file_def)
  have 1: "gl_renderer_reload_shaders ?bad ?g (Some ?r) = (False, Some ?r, ?g)"
    by (simp add: gl_renderer_reload_shaders_def load)
  have 2: "gl_renderer_reload_shaders_c ?bad ?g (Some ?rc) = (False, Some ?rc, ?g)"
    by (simp add: gl_renderer_reload_shaders_c_def load)
  have 3: "gl_renderer_reload_shaders ?good ?g (Some ?r)
             = (True, Some (?r\<lparr>program := 5\<rparr>), ?g\<lparr>programs := [5, 2]\<rparr>)"
    using reload_direct_ok [of ?r ?good ?g] good(1)
    by (simp add: pair_program_name_def fresh_name_def Let_def)
  have 4: "gl_renderer_reload_shaders_c ?good ?g (Some ?rc)
             = (True, Some (?rc\<lparr>compute_program := 4, display_program := 7\<rparr>),
                ?g\<lparr>programs := [7, 4]\<rparr>)"
    using reload_compute_ok [of ?rc ?good ?g] good(2)
    by (simp add: pair_program_name_def single_program_name_def fresh_name_def Let_def)
  show ?thesis
    using reload_all_or_nothing [of ?r ?g ?rc ?bad] reload_all_or_nothing [of ?r ?g ?rc ?good]
      1 2 3 4
    by simp
qed

subsection \<open>Resizing\<close>

lemma gen_texture_storage:
  "glTexStorage2D (snd (glGenTextures g)) (fst (glGenTextures g)) w h
     = g\<lparr>textures := (fresh_name (map fst (textures g)), w, h) # textures g\<rparr>"
proof -
  have "fresh_name (map fst (textures g)) \<notin> fst ` set (textures g)"
    using fresh_name_notin [of "map fst (textures g)"] by simp
  from map_absent_name [OF this, of "(w, h)"] show ?thesis
    by (simp add: glGenTextures_def glTexStorage2D_def Let_def)
qed

lemma create_output_texture_eq:
  "create_output_texture g r =
     (r\<lparr>output_texture :=
          fresh_name (map fst (if output_texture r \<noteq> 0
                               then filter (\<lambda>(n, s). n \<noteq> output_texture r) (textures g)
                               else textures g))\<rparr>,
      g\<lparr>textures :=
          (fresh_name (map fst (if output_texture r \<noteq> 0
                                then filter (\<lambda>(n, s). n \<noteq> output_texture r) (textures g)
                                else textures g)),
           width_c r, height_c r)
          # (if output_texture r \<noteq> 0
             then filter (\<lambda>(n, s). n \<noteq> output_texture r) (textures g)
             else textures g)\<rparr>)"
proof -
  let ?g1 = "if output_texture r \<noteq> 0 then glDeleteTextures g (output_texture r) else g"
  have "create_output_texture g r =
          (r\<lparr>output_texture := fst (glGenTextures ?g1)\<rparr>,
           glTexStorage2D (snd (glGenTextures ?g1)) (fst (glGenTextures ?g1))
             (width_c r) (height_c r))"
    by (simp add: create_output_texture_def split_beta Let_def)
  also have "\<dots> = (r\<lparr>output_texture := fresh_name (map fst (textures ?g1))\<rparr>,
                    ?g1\<lparr>textures := (fresh_name (map fst (textures ?g1)), width_c r, height_c r)
                                    # textures ?g1\<rparr>)"
    unfolding gen_texture_storage by (simp add: glGenTextures_def Let_def)
  finally show ?thesis by (simp add: glDeleteTextures_def)
qed

text \<open>
  C10: for every renderer and every \<open>(w, h)\<close>, \<^verbatim>\<open>gl_renderer_resize\<close> stores exactly
  \<open>(w, h)\<close> and leaves every other field as it was. The Direct renderer touches no
  OpenGL object. The Compute+blit renderer first deletes the old output texture (when it
  has one), then generates a texture, whose name is new among the textures that remain,
  gives it storage of size \<open>(w, h)\<close> and stores its name; no other object changes.
\<close>

theorem resize_effect:
  "gl_renderer_resize g (Some r) w h = (Some (r\<lparr>width := w, height := h\<rparr>), g)
   \<and> (case gl_renderer_resize_c g (Some rc) w h of (ro', g') \<Rightarrow>
        \<exists>tex. tex \<noteq> 0
           \<and> ro' = Some (rc\<lparr>width_c := w, height_c := h, output_texture := tex\<rparr>)
           \<and> textures g' =
                (tex, w, h) # (if output_texture rc \<noteq> 0
                               then filter (\<lambda>(n, s). n \<noteq> output_texture rc) (textures g)
                               else textures g)
           \<and> tex \<notin> fst ` set (if output_texture rc \<noteq> 0
                                  then filter (\<lambda>(n, s). n \<noteq> output_texture rc) (textures g)
                                  else textures g)
           \<and> g' = g\<lparr>textures := textures g'\<rparr>)"
proof (rule conjI)
  show "gl_renderer_resize g (Some r) w h = (Some (r\<lparr>width := w, height := h\<rparr>), g)"
    by (simp add: gl_renderer_resize_def)
next
  let ?kept = "if output_texture rc \<noteq> 0
               then filter (\<lambda>(n, s). n \<noteq> output_texture rc) (textures g)
               else textures g"
  let ?tex = "fresh_name (map fst ?kept)"
  have fresh: "?tex \<notin> fst ` set ?kept" using fresh_name_notin [of "map fst ?kept"] by simp
  have nz: "?tex \<noteq> 0" by (rule fresh_name_nonzero)
  have eq: "gl_renderer_resize_c g (Some rc) w h
              = (Some (rc\<lparr>width_c := w, height_c := h, output_texture := ?tex\<rparr>),
                 g\<lparr>textures := (?tex, w, h) # ?kept\<rparr>)"
    by (simp add: gl_renderer_resize_c_def create_output_texture_eq)
  show "case gl_renderer_resize_c g (Some rc) w h of (ro', g') \<Rightarrow>
        \<exists>tex. tex \<noteq> 0
           \<and> ro' = Some (rc\<lparr>width_c := w, height_c := h, output_texture := tex\<rparr>)
           \<and> textures g' = (tex, w, h) # ?kept
           \<and> tex \<notin> fst ` set ?kept
           \<and> g' = g\<lparr>textures := textures g'\<rparr>"
    unfolding eq prod.case
    using nz fresh by (intro exI [of _ ?tex]) simp
qed

theorem resize_effect_witness:
  "gl_renderer_resize_c
     \<lparr>shaders = [], programs = [1, 2], textures = [(1, 1600, 900)],
       vertex_arrays = [1], buffers = [1], host_blocks = 1\<rparr>
     (Some \<lparr>width_c = 1600, height_c = 900, compute_program = 1, display_program = 2,
             output_texture = 1, vao_c = 1, vbo_c = 1, ok_c = True\<rparr>) 800 600
   = (Some \<lparr>width_c = 800, height_c = 600, compute_program = 1, display_program = 2,
            output_texture = 1, vao_c = 1, vbo_c = 1, ok_c = True\<rparr>,
      \<lparr>shaders = [], programs = [1, 2], textures = [(1, 800, 600)],
        vertex_arrays = [1], buffers = [1], host_blocks = 1\<rparr>)
   \<and> gl_renderer_resize
       \<lparr>shaders = [], programs = [1], textures = [], vertex_arrays = [1], buffers = [1],
         host_blocks = 1\<rparr>
       (Some \<lparr>width = 1600, height = 900, program = 1, vao = 1, vbo = 1, ok = True\<rparr>) 800 600
     = (Some \<lparr>width = 800, height = 600, program = 1, vao = 1, vbo = 1, ok = True\<rparr>,
        \<lparr>shaders = [], programs = [1], textures = [], vertex_arrays = [1], buffers = [1],
          host_blocks = 1\<rparr>)"
  using resize_effect [of
      "\<lparr>shaders = [], programs = [1], textures = [], vertex_arrays = [1], buffers = [1],
         host_blocks = 1\<rparr>"
      "\<lparr>width = 1600, height = 900, program = 1, vao = 1, vbo = 1, ok = True\<rparr>" 800 600]
  by (simp add: gl_renderer_resize_c_def create_output_texture_def glDeleteTextures_def
      glGenTextures_def glTexStorage2D_def fresh_name_def Let_def)

subsection \<open>Creation\<close>

lemma create_direct_unfold:
  "gl_renderer_create env g w h =
     (if \<not> calloc_ok env then (None, g)
      else
        (case (case compile_shader env (host_alloc g) GL_VERTEX_SHADER ''shaders/raymarch.vert'' of
                 (vert, g1) \<Rightarrow>
                   case compile_shader env g1 GL_FRAGMENT_SHADER ''shaders/raymarch.frag'' of
                     (frag, g2) \<Rightarrow>
                       if vert = 0 \<or> frag = 0 then (0, g2) else link_program env g2 vert frag) of
           (prog, g3) \<Rightarrow>
             if prog = 0 then (None, host_free g3)
             else (Some \<lparr>width = w, height = h, program = prog,
                          vao = fst (glGenVertexArrays g3),
                          vbo = fst (glGenBuffers (snd (glGenVertexArrays g3))), ok = True\<rparr>,
                   snd (glGenBuffers (snd (glGenVertexArrays g3))))))"
  by (simp add: gl_renderer_create_def split_beta Let_def)

lemma create_compute_unfold:
  "gl_renderer_create_c env g w h =
     (if \<not> calloc_ok env then (None, g)
      else
        (case (case compile_shader env (host_alloc g) GL_COMPUTE_SHADER ''shaders/raymarch.comp'' of
                 (comp_shader, g1) \<Rightarrow>
                   if comp_shader = 0 then (0, g1)
                   else link_compute_program env g1 comp_shader) of
           (cprog, g2) \<Rightarrow>
             if cprog = 0 then (None, host_free g2)
             else
               (case (case compile_shader env g2 GL_VERTEX_SHADER ''shaders/display.vert'' of
                        (vert, g3) \<Rightarrow>
                          case compile_shader env g3 GL_FRAGMENT_SHADER ''shaders/display.frag'' of
                            (frag, g4) \<Rightarrow>
                              if vert = 0 \<or> frag = 0 then (0, g4)
                              else link_program env g4 vert frag) of
                  (dprog, g5) \<Rightarrow>
                    if dprog = 0 then (None, host_free (glDeleteProgram g5 cprog))
                    else
                      (let (r, g6) = create_output_texture g5
                             \<lparr>width_c = w, height_c = h, compute_program = cprog,
                               display_program = dprog, output_texture = 0, vao_c = 0,
                               vbo_c = 0, ok_c = False\<rparr>;
                           (va, g7) = glGenVertexArrays g6;
                           (vb, g8) = glGenBuffers g7
                       in (Some (r\<lparr>vao_c := va, vbo_c := vb, ok_c := True\<rparr>), g8)))))"
  by (simp add: gl_renderer_create_c_def split_beta Let_def)

text \<open>
  What a failed creation does release: programs, textures, vertex arrays, buffers and
  host blocks are as before the call.
\<close>

lemma create_direct_failure_releases:
  assumes "gl_renderer_create env g w h = (None, g')"
  shows "programs g' = programs g \<and> textures g' = textures g
         \<and> vertex_arrays g' = vertex_arrays g \<and> buffers g' = buffers g
         \<and> host_blocks g' = host_blocks g"
  using assms unfolding create_direct_unfold build_pair
  by (auto simp: compile_shader_eq host_alloc_def host_free_def pair_program_name_new(1)
      split: if_splits option.splits)

lemma create_compute_failure_releases:
  assumes "gl_renderer_create_c env g w h = (None, g')"
  shows "programs g' = programs g \<and> textures g' = textures g
         \<and> vertex_arrays g' = vertex_arrays g \<and> buffers g' = buffers g
         \<and> host_blocks g' = host_blocks g"
  using assms single_program_name_new(2) [of "host_alloc g"]
  unfolding create_compute_unfold build_single build_pair
  by (auto simp: compile_shader_eq host_alloc_def host_free_def glDeleteProgram_def
      filter_absent split_beta Let_def pair_program_name_new(1) single_program_name_new(1)
      split: if_splits option.splits)

text \<open>What it does not release: the shader of a pair that compiled when the other did not.\<close>

lemma create_direct_leak:
  assumes "calloc_ok env"
    and "compiled_source env GL_VERTEX_SHADER ''shaders/raymarch.vert'' = Some sv"
    and "compiled_source env GL_FRAGMENT_SHADER ''shaders/raymarch.frag'' = None"
  shows "gl_renderer_create env g w h =
           (None, g\<lparr>shaders := (fresh_name (map fst (shaders g) @ programs g), sv) # shaders g\<rparr>)"
  unfolding create_direct_unfold build_pair
  using assms by (simp add: host_alloc_def host_free_def)

lemma create_compute_leak:
  assumes "calloc_ok env"
    and "compiled_source env GL_COMPUTE_SHADER ''shaders/raymarch.comp'' = Some sc"
    and "link_status env [sc]"
    and "compiled_source env GL_VERTEX_SHADER ''shaders/display.vert'' = Some sv"
    and "compiled_source env GL_FRAGMENT_SHADER ''shaders/display.frag'' = None"
  shows "gl_renderer_create_c env g w h =
           (None, g\<lparr>shaders :=
                      (fresh_name (map fst (shaders g) @ single_program_name g # programs g), sv)
                      # shaders g\<rparr>)"
  unfolding create_compute_unfold build_single build_pair
  using assms single_program_name_new [of g]
  by (simp add: host_alloc_def host_free_def glDeleteProgram_def filter_absent
      single_program_name_def)

text \<open>
  C9, evaluated where it fails: with valid vertex (and compute) sources and fragment
  sources that do not compile, both \<^verbatim>\<open>gl_renderer_create\<close> functions return \<open>NULL\<close>, and
  the object table, empty before the call, holds the compiled vertex shader after it.
\<close>

theorem create_leaks_compiled_shader:
  "gl_renderer_create
     \<lparr>files = (\<lambda>p. if p = ''shaders/raymarch.frag'' \<or> p = ''shaders/display.frag''
                     then Some ''syntax error'' else Some ''void main() {}''),
       malloc_ok = (\<lambda>p. True), calloc_ok = True, compile_status = (\<lambda>t s. s \<noteq> ''syntax error''),
       link_status = (\<lambda>s. True)\<rparr>
     \<lparr>shaders = [], programs = [], textures = [], vertex_arrays = [], buffers = [],
       host_blocks = 0\<rparr> 1600 900
   = (None, \<lparr>shaders = [(1, ''void main() {}'')], programs = [], textures = [],
              vertex_arrays = [], buffers = [], host_blocks = 0\<rparr>)
   \<and> gl_renderer_create_c
     \<lparr>files = (\<lambda>p. if p = ''shaders/raymarch.frag'' \<or> p = ''shaders/display.frag''
                     then Some ''syntax error'' else Some ''void main() {}''),
       malloc_ok = (\<lambda>p. True), calloc_ok = True, compile_status = (\<lambda>t s. s \<noteq> ''syntax error''),
       link_status = (\<lambda>s. True)\<rparr>
     \<lparr>shaders = [], programs = [], textures = [], vertex_arrays = [], buffers = [],
       host_blocks = 0\<rparr> 1600 900
   = (None, \<lparr>shaders = [(3, ''void main() {}'')], programs = [], textures = [],
              vertex_arrays = [], buffers = [], host_blocks = 0\<rparr>)"
  unfolding create_direct_unfold create_compute_unfold build_pair build_single
  by (simp add: compiled_source_def compile_shader_eq single_program_name_def fresh_name_def
      host_alloc_def host_free_def glDeleteProgram_def)

end
